theory Spec2Isabelle
  imports Main "HOL-Library.Word" "HOL-Library.List_Lexorder"
begin

unbundle bit_operations_syntax

section \<open>The DHCPv4 handler of dhcpeterd (internal/dhcp4d/dhcp4d.go)\<close>

text \<open>
  A shallow embedding of the lease database and of the message handling of
  \<^verbatim>\<open>internal/dhcp4d/dhcp4d.go\<close>. Every Go function is a HOL function of the same name.
  \<^item> \<^verbatim>\<open>net.IP\<close>, \<^verbatim>\<open>net.HardwareAddr\<close> and option values are byte lists; a nil slice is the
    empty list (the code only distinguishes nil from empty when it looks an option up, and
    a lookup is modelled with \<open>option\<close>).
  \<^item> Go's \<^verbatim>\<open>int\<close> is \<open>int\<close>: the only arithmetic is the difference of two 32-bit
    values plus or minus one, which never leaves the 64-bit range. \<^verbatim>\<open>uint32(n)\<close> is
    \<open>word_of_int n\<close>.
  \<^item> \<^verbatim>\<open>time.Time\<close> is the number of nanoseconds since the zero instant, so \<^verbatim>\<open>IsZero\<close> is
    equality with 0, \<^verbatim>\<open>After\<close> and \<^verbatim>\<open>Before\<close> are \<open>>\<close> and \<open><\<close>, and \<^verbatim>\<open>Add\<close> is
    addition (the saturation of \<^verbatim>\<open>Add\<close> at the ends of the representable range is left
    out); \<^verbatim>\<open>time.Duration\<close> is a number of nanoseconds.
  \<^item> A run-time panic is the \<open>Inl\<close> branch of a sum.
  \<^item> The readings of the injected clock \<^verbatim>\<open>h.timeNow()\<close>, of the wall clock
    \<^verbatim>\<open>time.Now()\<close> and of \<^verbatim>\<open>rand.Intn\<close> are inputs of each operation: every call site
    runs at most once per operation, and gets its own reading.
  \<^item> The mutex \<^verbatim>\<open>leasesMu\<close>, logging, the raw socket and the frame serialisation of
    \<^verbatim>\<open>ServeDHCP\<close> are not modelled; \<^verbatim>\<open>ServeDHCP\<close> sends what \<^verbatim>\<open>serveDHCP\<close> returns.
\<close>

subsection \<open>Bytes, addresses and big-endian arithmetic\<close>

type_synonym byte = "8 word"
type_synonym IP = "byte list"
type_synonym Time = int
type_synonym Duration = int

datatype panic = IndexOutOfRange | NilDereference

text \<open>\<^verbatim>\<open>net.IP.To4\<close>: a 4-byte address is returned as it is, a 16-byte IPv4-mapped address
  gives its last four bytes, anything else nil.\<close>

definition isZeros :: "byte list \<Rightarrow> bool" where
  "isZeros p = list_all (\<lambda>b. b = 0) p"

definition To4 :: "IP \<Rightarrow> IP" where
  "To4 ip =
     (if length ip = 4 then ip
      else if length ip = 16 \<and> isZeros (take 10 ip) \<and> ip ! 10 = 0xff \<and> ip ! 11 = 0xff
           then take 4 (drop 12 ip)
      else [])"

definition v4InV6Prefix :: "byte list" where
  "v4InV6Prefix = [0, 0, 0, 0, 0, 0, 0, 0, 0, 0, 0xff, 0xff]"

text \<open>\<^verbatim>\<open>net.IPv4zero\<close> is \<^verbatim>\<open>IPv4(0, 0, 0, 0)\<close>, in 16-byte form.\<close>

definition IPv4zero :: IP where
  "IPv4zero = v4InV6Prefix @ [0, 0, 0, 0]"

text \<open>\<^verbatim>\<open>net.IP.Equal\<close>: an IPv4 address and its 16-byte form are equal.\<close>

definition IP_Equal :: "IP \<Rightarrow> IP \<Rightarrow> bool" where
  "IP_Equal ip x =
     (if length ip = length x then ip = x
      else if length ip = 4 \<and> length x = 16
           then take 12 x = v4InV6Prefix \<and> ip = drop 12 x
      else if length ip = 16 \<and> length x = 4
           then take 12 ip = v4InV6Prefix \<and> drop 12 ip = x
      else False)"

text \<open>\<^verbatim>\<open>binary.BigEndian.Uint32\<close> panics on fewer than four bytes; \<^verbatim>\<open>PutUint32\<close> writes
  the four bytes of a value.\<close>

definition Uint32 :: "byte list \<Rightarrow> panic + 32 word" where
  "Uint32 b =
     (if length b < 4 then Inl IndexOutOfRange
      else Inr (ucast (b ! 3) OR push_bit 8 (ucast (b ! 2)) OR push_bit 16 (ucast (b ! 1))
                OR push_bit 24 (ucast (b ! 0))))"

definition PutUint32 :: "32 word \<Rightarrow> byte list" where
  "PutUint32 v = [ucast (drop_bit 24 v), ucast (drop_bit 16 v), ucast (drop_bit 8 v), ucast v]"

text \<open>The two helpers of the library \<^verbatim>\<open>github.com/krolaw/dhcp4\<close> (helpers.go) that the
  handler calls. \<^verbatim>\<open>IPRange(start, stop)\<close> is the number of addresses from start to stop,
  both included:
  \<^verbatim>\<open>int(Uint32(stop.To4())) - int(Uint32(start.To4())) + 1\<close>.
  \<^verbatim>\<open>IPAdd(start, add)\<close> is \<^verbatim>\<open>PutUint32(result, Uint32(start.To4()) + uint32(add))\<close>.\<close>

definition IPRange :: "IP \<Rightarrow> IP \<Rightarrow> panic + int" where
  "IPRange start stop =
     (case Uint32 (To4 stop) of
        Inl e \<Rightarrow> Inl e
      | Inr b \<Rightarrow>
          (case Uint32 (To4 start) of
             Inl e \<Rightarrow> Inl e
           | Inr a \<Rightarrow> Inr (uint b - uint a + 1)))"

definition IPAdd :: "IP \<Rightarrow> int \<Rightarrow> panic + IP" where
  "IPAdd start add =
     (case Uint32 (To4 start) of
        Inl e \<Rightarrow> Inl e
      | Inr v \<Rightarrow> Inr (PutUint32 (v + word_of_int add)))"

subsection \<open>Strings: MAC addresses, hexadecimal, lower case\<close>

definition hexDigit :: string where
  "hexDigit = ''0123456789abcdef''"

text \<open>\<^verbatim>\<open>net.HardwareAddr.String\<close>: two lower-case hexadecimal digits per byte, colons
  between the bytes.\<close>

fun HardwareAddr_String :: "byte list \<Rightarrow> string" where
  "HardwareAddr_String [] = []"
| "HardwareAddr_String [b] = [hexDigit ! unat (drop_bit 4 b), hexDigit ! unat (b AND 0xF)]"
| "HardwareAddr_String (b # bs) =
     [hexDigit ! unat (drop_bit 4 b), hexDigit ! unat (b AND 0xF), CHR '':'']
     @ HardwareAddr_String bs"

text \<open>\<^verbatim>\<open>strings.ToLower\<close> on ASCII letters; the model leaves every other byte as it is,
  where Go also lower-cases letters beyond ASCII and rewrites invalid UTF-8. It is exact on
  ASCII strings; the keys \<^verbatim>\<open>serveDHCP\<close> looks up come from \<^verbatim>\<open>HardwareAddr.String\<close>, which
  are ASCII.\<close>

definition lowerChar :: "char \<Rightarrow> char" where
  "lowerChar c =
     (let n = (of_char c :: nat) in if 65 \<le> n \<and> n \<le> 90 then char_of (n + 32) else c)"

definition ToLower :: "string \<Rightarrow> string" where
  "ToLower s = map lowerChar s"

text \<open>\<^verbatim>\<open>strings.ReplaceAll(s, ":", "")\<close>.\<close>

definition removeColons :: "string \<Rightarrow> string" where
  "removeColons s = filter (\<lambda>c. c \<noteq> CHR '':'') s"

text \<open>\<^verbatim>\<open>encoding/hex\<close>: \<^verbatim>\<open>DecodeString\<close> reads two digits per byte, of either case; it fails
  on a character that is no digit and on an odd length.\<close>

datatype hexError = InvalidByteError char | ErrLength

definition fromHexChar :: "char \<Rightarrow> byte option" where
  "fromHexChar c =
     (let n = (of_char c :: nat) in
      if 48 \<le> n \<and> n \<le> 57 then Some (of_nat (n - 48))
      else if 97 \<le> n \<and> n \<le> 102 then Some (of_nat (n - 87))
      else if 65 \<le> n \<and> n \<le> 70 then Some (of_nat (n - 55))
      else None)"

fun DecodeString :: "string \<Rightarrow> hexError + byte list" where
  "DecodeString [] = Inr []"
| "DecodeString [p] =
     (case fromHexChar p of None \<Rightarrow> Inl (InvalidByteError p) | Some a \<Rightarrow> Inl ErrLength)"
| "DecodeString (p # q # rest) =
     (case fromHexChar p of
        None \<Rightarrow> Inl (InvalidByteError p)
      | Some a \<Rightarrow>
          (case fromHexChar q of
             None \<Rightarrow> Inl (InvalidByteError q)
           | Some b \<Rightarrow>
               (case DecodeString rest of
                  Inl e \<Rightarrow> Inl e
                | Inr bs \<Rightarrow> Inr ((push_bit 4 a OR b) # bs))))"

text \<open>\<^verbatim>\<open>bytes.Compare\<close>: the lexicographic order of byte strings, as -1, 0 or 1.\<close>

fun bytes_Compare :: "byte list \<Rightarrow> byte list \<Rightarrow> int" where
  "bytes_Compare [] [] = 0"
| "bytes_Compare [] (y # ys) = - 1"
| "bytes_Compare (x # xs) [] = 1"
| "bytes_Compare (x # xs) (y # ys) =
     (if x < y then - 1 else if y < x then 1 else bytes_Compare xs ys)"

text \<open>\<^verbatim>\<open>sort.Search(n, f)\<close>: the binary search of the standard library,
  \<^verbatim>\<open>i, j := 0, n; for i < j { h := int(uint(i+j) >> 1); if !f(h) { i = h + 1 } else { j = h } }\<close>.\<close>

function Search_loop :: "nat \<Rightarrow> nat \<Rightarrow> (nat \<Rightarrow> bool) \<Rightarrow> nat" where
  "Search_loop i j f =
     (if i < j
      then (let h = (i + j) div 2 in if \<not> f h then Search_loop (h + 1) j f else Search_loop i h f)
      else i)"
  by pat_completeness auto
termination
  by (relation "measure (\<lambda>(i, j, f). j - i)") auto

definition Search :: "nat \<Rightarrow> (nat \<Rightarrow> bool) \<Rightarrow> nat" where
  "Search n f = Search_loop 0 n f"

subsection \<open>Leases and the handler\<close>

record Lease =
  Num :: int
  Addr :: IP
  HardwareAddr :: string
  Hostname :: string
  HostnameOverride :: string
  Expiry :: Time
  LastACK :: Time

record StaticLease =
  staticAddr :: IP
  staticHardwareAddr :: string
  staticHostname :: string

definition Minute :: Duration where
  "Minute = 60 * 1000000000"

definition Hour :: Duration where
  "Hour = 60 * Minute"

definition leasePeriod :: Duration where
  "leasePeriod = 20 * Minute"

definition Expired :: "Lease \<Rightarrow> Time \<Rightarrow> bool" where
  "Expired l at = (Expiry l \<noteq> 0 \<and> at > Expiry l)"

definition Active :: "Lease \<Rightarrow> Time \<Rightarrow> bool" where
  "Active l at = (LastACK l \<noteq> 0 \<and> at < LastACK l + leasePeriod)"

text \<open>The handler. \<open>Leases\<close> is the observer: \<open>None\<close> when \<^verbatim>\<open>h.Leases\<close> is nil, otherwise
  the calls it has received so far, oldest first, each with the leases of \<open>leasesIP\<close> at
  the time of the call (the Go slice lists them in the unspecified order of a map
  iteration) and the lease just touched. \<^verbatim>\<open>rawConn\<close>, \<^verbatim>\<open>iface\<close> and \<^verbatim>\<open>leasesMu\<close> are left
  out; \<^verbatim>\<open>timeNow\<close> is an input of the operations.\<close>

record Handler =
  serverIP :: IP
  start :: IP
  leaseRange :: int
  LeasePeriod :: Duration
  options :: "byte \<rightharpoonup> byte list"
  staticLeases :: "string \<rightharpoonup> StaticLease"
  reservedOffsets :: "int set"
  Leases :: "((int \<rightharpoonup> Lease) \<times> Lease) list option"
  leasesHW :: "string \<rightharpoonup> int"
  leasesIP :: "int \<rightharpoonup> Lease"


subsection \<open>Packets and replies\<close>

text \<open>A received packet, as far as the handler reads it: \<^verbatim>\<open>p.CIAddr()\<close> and
  \<^verbatim>\<open>p.CHAddr()\<close>. The option map is \<^verbatim>\<open>dhcp4.Options\<close>, from option code to value.\<close>

record Packet =
  CIAddr :: IP
  CHAddr :: "byte list"

datatype MessageType = Discover | Offer | Request | Decline | ACK | NAK | Release | Inform

definition OptionSubnetMask :: byte where "OptionSubnetMask = 1"
definition OptionRouter :: byte where "OptionRouter = 3"
definition OptionDomainNameServer :: byte where "OptionDomainNameServer = 6"
definition OptionHostName :: byte where "OptionHostName = 12"
definition OptionRequestedIPAddress :: byte where "OptionRequestedIPAddress = 50"
definition OptionServerIdentifier :: byte where "OptionServerIdentifier = 54"
definition OptionParameterRequestList :: byte where "OptionParameterRequestList = 55"

text \<open>\<^verbatim>\<open>Options.SelectOrderOrAll(order)\<close> of the library: with no parameter request list all
  options of the handler, in the unspecified order of a map iteration; otherwise the
  requested ones that the handler has, in the requested order.\<close>

datatype selection = AllOptions "byte \<rightharpoonup> byte list" | Selected "(byte \<times> byte list) list"

definition SelectOrderOrAll :: "(byte \<rightharpoonup> byte list) \<Rightarrow> byte list option \<Rightarrow> selection" where
  "SelectOrderOrAll o' order =
     (case order of
        None \<Rightarrow> AllOptions o'
      | Some codes \<Rightarrow> Selected (List.map_filter (\<lambda>c. map_option (Pair c) (o' c)) codes))"

text \<open>\<^verbatim>\<open>copy(dst, src)\<close> into a fresh slice of four zero bytes.\<close>

definition copy4 :: "byte list \<Rightarrow> byte list" where
  "copy4 src = take 4 src @ replicate (4 - length src) 0"

text \<open>\<^verbatim>\<open>dhcp4.OptionsLeaseTime(d)\<close> is \<^verbatim>\<open>PutUint32(uint32(d / time.Second))\<close>; the model
  applies it to positive durations only, where Go's truncating division is \<open>div\<close>.\<close>

definition OptionsLeaseTime :: "Duration \<Rightarrow> byte list" where
  "OptionsLeaseTime d = PutUint32 (word_of_int (d div 1000000000))"

text \<open>The packet \<^verbatim>\<open>dhcp4.ReplyPacket(req, mt, serverId, yIAddr, leaseDuration, options)\<close>
  builds: the transaction id, flags, gateway and hardware address of the request
  (\<open>request\<close>), \<^verbatim>\<open>SetYIAddr\<close> (a copy of \<^verbatim>\<open>yIAddr.To4()\<close> into the four bytes of the field),
  the message type, the server identifier, the lease time option when the duration is
  positive, and the selected options.\<close>

record Reply =
  request :: Packet
  messageType :: MessageType
  serverId :: IP
  yIAddr :: IP
  leaseTime :: "byte list option"
  selected :: selection

definition ReplyPacket ::
  "Packet \<Rightarrow> MessageType \<Rightarrow> IP \<Rightarrow> IP \<Rightarrow> Duration \<Rightarrow> selection \<Rightarrow> Reply" where
  "ReplyPacket req mt sid yi leaseDuration sel =
     \<lparr> request = req, messageType = mt, serverId = sid, yIAddr = copy4 (To4 yi),
       leaseTime = (if leaseDuration > 0 then Some (OptionsLeaseTime leaseDuration) else None),
       selected = sel \<rparr>"

subsection \<open>Construction and restore\<close>

text \<open>\<^verbatim>\<open>NewHandler\<close>. The connection is taken as opened, and \<^verbatim>\<open>net.ParseIP\<close> is a
  parameter (nil when the string is no address). The result is a panic, the error of an
  unparseable DNS server, or the handler.\<close>

fun dnsLoop :: "(string \<Rightarrow> IP) \<Rightarrow> string list \<Rightarrow> byte list \<Rightarrow> string + byte list" where
  "dnsLoop ParseIP [] dnsServerIPs = Inr dnsServerIPs"
| "dnsLoop ParseIP (s # ss) dnsServerIPs =
     (let dnsIP = ParseIP s in
      if dnsIP = [] then Inl (''parse dns ip error invalid: '' @ s)
      else dnsLoop ParseIP ss (dnsServerIPs @ To4 dnsIP))"

fun staticLoop ::
  "IP \<Rightarrow> StaticLease list \<Rightarrow> (string \<rightharpoonup> StaticLease) \<times> int set
   \<Rightarrow> panic + ((string \<rightharpoonup> StaticLease) \<times> int set)" where
  "staticLoop startIP [] acc = Inr acc"
| "staticLoop startIP (sl # sls) (staticLeaseMap, reserved) =
     (case IPRange startIP (staticAddr sl) of
        Inl e \<Rightarrow> Inl e
      | Inr i \<Rightarrow>
          staticLoop startIP sls
            (staticLeaseMap(ToLower (staticHardwareAddr sl) \<mapsto> sl), insert i reserved))"

definition NewHandler ::
  "(string \<Rightarrow> IP) \<Rightarrow> IP \<Rightarrow> IP \<Rightarrow> IP \<Rightarrow> int \<Rightarrow> Duration \<Rightarrow> string list \<Rightarrow> StaticLease list
   \<Rightarrow> panic + (string + Handler)" where
  "NewHandler ParseIP serverIP0 startIP0 netMask0 leaseRange0 leasePeriod0 dnsServers sls =
     (let serverIP1 = To4 serverIP0; netMask1 = To4 netMask0; startIP1 = To4 startIP0 in
      case dnsLoop ParseIP dnsServers [] of
        Inl err \<Rightarrow> Inr (Inl err)
      | Inr dnsServerIPs \<Rightarrow>
          (case staticLoop startIP1 sls (Map.empty, {}) of
             Inl e \<Rightarrow> Inl e
           | Inr (staticLeaseMap, reserved) \<Rightarrow>
               Inr (Inr \<lparr> serverIP = serverIP1, start = startIP1, leaseRange = leaseRange0,
                          LeasePeriod = leasePeriod0,
                          options = [OptionSubnetMask \<mapsto> netMask1, OptionRouter \<mapsto> serverIP1,
                                     OptionDomainNameServer \<mapsto> dnsServerIPs,
                                     OptionServerIdentifier \<mapsto> serverIP1],
                          staticLeases = staticLeaseMap, reservedOffsets = reserved,
                          Leases = None, leasesHW = Map.empty, leasesIP = Map.empty \<rparr>)))"

text \<open>\<^verbatim>\<open>SetLeases\<close>: both indices are replaced; a lease with no \<^verbatim>\<open>LastACK\<close> gets its expiry
  as \<^verbatim>\<open>LastACK\<close>.\<close>

fun SetLeases_loop :: "Handler \<Rightarrow> Lease list \<Rightarrow> Handler" where
  "SetLeases_loop h [] = h"
| "SetLeases_loop h (l0 # ls) =
     (let l = (if LastACK l0 = 0 then l0\<lparr>LastACK := Expiry l0\<rparr> else l0) in
      SetLeases_loop
        (h\<lparr>leasesHW := (leasesHW h)(HardwareAddr l \<mapsto> Num l),
           leasesIP := (leasesIP h)(Num l \<mapsto> l)\<rparr>) ls)"

definition SetLeases :: "Handler \<Rightarrow> Lease list \<Rightarrow> Handler" where
  "SetLeases h leases = SetLeases_loop (h\<lparr>leasesHW := Map.empty, leasesIP := Map.empty\<rparr>) leases"

subsection \<open>The observer and SetHostname\<close>

definition callLeasesLocked :: "Handler \<Rightarrow> Lease \<Rightarrow> Handler" where
  "callLeasesLocked h lease =
     (case Leases h of
        None \<Rightarrow> h
      | Some calls \<Rightarrow> h\<lparr>Leases := Some (calls @ [(leasesIP h, lease)])\<rparr>)"

text \<open>\<^verbatim>\<open>SetHostname\<close>. A missing key of \<^verbatim>\<open>leasesHW\<close> reads as offset 0, a missing key of
  \<^verbatim>\<open>leasesIP\<close> as a nil pointer, and \<^verbatim>\<open>lease.HardwareAddr\<close> on a nil pointer panics.
  \<open>now\<close> is the reading of \<^verbatim>\<open>h.timeNow()\<close>. The result is a panic, or the returned
  error (\<open>None\<close> is nil) and the handler after the call.\<close>

definition SetHostname ::
  "Handler \<Rightarrow> Time \<Rightarrow> string \<Rightarrow> string \<Rightarrow> panic + (string option \<times> Handler)" where
  "SetHostname h now hwaddr hostname =
     (let leaseNum = (case leasesHW h hwaddr of None \<Rightarrow> 0 | Some n \<Rightarrow> n) in
      case leasesIP h leaseNum of
        None \<Rightarrow> Inl NilDereference
      | Some lease \<Rightarrow>
          if HardwareAddr lease \<noteq> hwaddr \<or> Expired lease now
          then Inr (Some (''hwaddr '' @ hwaddr @ '' does not have a valid lease''), h)
          else (let lease' = lease\<lparr>Hostname := hostname, HostnameOverride := hostname\<rparr>;
                    h' = h\<lparr>leasesIP := (leasesIP h)(leaseNum \<mapsto> lease')\<rparr>
                in Inr (None, callLeasesLocked h' lease')))"

subsection \<open>Allocation search and request validation\<close>

text \<open>\<^verbatim>\<open>rand.Intn(n)\<close> for \<open>n > 0\<close>: some value of \<open>[0, n)\<close>, here the draw \<open>r\<close> reduced
  modulo \<open>n\<close>. (\<^verbatim>\<open>findLease\<close> calls it only under \<^verbatim>\<open>len(h.leasesIP) < h.leaseRange\<close>, where
  \<open>n > 0\<close>, so that its panic for \<open>n \<le> 0\<close> cannot happen.)\<close>

definition rand_Intn :: "nat \<Rightarrow> int \<Rightarrow> int" where
  "rand_Intn r n = int r mod n"

text \<open>The test both probes of \<^verbatim>\<open>findLease\<close> make: offset \<open>i\<close> has no lease or an expired
  one, and is not reserved.\<close>

definition freeAt :: "Handler \<Rightarrow> Time \<Rightarrow> int \<Rightarrow> bool" where
  "freeAt h now i =
     ((case leasesIP h i of None \<Rightarrow> True | Some l \<Rightarrow> Expired l now) \<and> i \<notin> reservedOffsets h)"

definition findLease :: "Handler \<Rightarrow> Time \<Rightarrow> nat \<Rightarrow> int" where
  "findLease h now r =
     (if int (card (dom (leasesIP h))) < leaseRange h
      then (let i = rand_Intn r (leaseRange h) in
            if freeAt h now i then i
            else (case find (freeAt h now) [0 .. leaseRange h - 1] of
                    Some i \<Rightarrow> i
                  | None \<Rightarrow> - 1))
      else - 1)"

definition canLease :: "Handler \<Rightarrow> Time \<Rightarrow> IP \<Rightarrow> string \<Rightarrow> panic + int" where
  "canLease h now reqIP hwaddr =
     (if length reqIP \<noteq> 4 \<or> IP_Equal reqIP IPv4zero then Inr (- 1)
      else
        (case IPRange (start h) reqIP of
           Inl e \<Rightarrow> Inl e
         | Inr n \<Rightarrow>
             (let leaseNum = n - 1 in
              if leaseNum < 0 then Inr (- 1)
              else
                (case leasesIP h leaseNum of
                   None \<Rightarrow> if leaseNum \<ge> leaseRange h then Inr (- 1) else Inr leaseNum
                 | Some l \<Rightarrow>
                     if HardwareAddr l = hwaddr then Inr leaseNum
                     else if leaseNum \<ge> leaseRange h then Inr (- 1)
                     else if Expired l now then Inr leaseNum
                     else Inr (- 1)))))"

definition leaseHW :: "Handler \<Rightarrow> string \<Rightarrow> Lease option" where
  "leaseHW h hwAddr =
     (case leasesHW h hwAddr of
        None \<Rightarrow> None
      | Some num \<Rightarrow>
          (case leasesIP h num of
             None \<Rightarrow> None
           | Some l \<Rightarrow> if HardwareAddr l = hwAddr then Some l else None))"

text \<open>\<^verbatim>\<open>expireLease\<close>; \<open>wall\<close> is the reading of \<^verbatim>\<open>time.Now()\<close>.\<close>

definition expireLease :: "Handler \<Rightarrow> Time \<Rightarrow> string \<Rightarrow> bool \<times> Handler" where
  "expireLease h wall hwAddr =
     (case leasesHW h hwAddr of
        None \<Rightarrow> (False, h)
      | Some num \<Rightarrow>
          (case leasesIP h num of
             None \<Rightarrow> (False, h)
           | Some l \<Rightarrow>
               if HardwareAddr l \<noteq> hwAddr then (False, h)
               else (True, h\<lparr>leasesIP := (leasesIP h)(num \<mapsto> l\<lparr>Expiry := wall\<rparr>)\<rparr>)))"

subsection \<open>The lease period of a device\<close>

text \<open>\<^verbatim>\<open>leasePeriodForDevice\<close>. The table \<^verbatim>\<open>nintendoMacPrefixes\<close> is a package variable
  declared outside \<^verbatim>\<open>dhcp4d.go\<close>; here it is the parameter \<open>nintendoMacPrefixes\<close>, a list
  of 3-byte prefixes.\<close>

definition leasePeriodForDevice :: "Handler \<Rightarrow> byte list list \<Rightarrow> string \<Rightarrow> Duration" where
  "leasePeriodForDevice h nintendoMacPrefixes hwAddr =
     (case DecodeString (removeColons hwAddr) of
        Inl err \<Rightarrow> LeasePeriod h
      | Inr decoded \<Rightarrow>
          if length decoded \<noteq> 6 then LeasePeriod h
          else (let hwAddrPrefix = take 3 decoded;
                    i = Search (length nintendoMacPrefixes)
                          (\<lambda>i. bytes_Compare (nintendoMacPrefixes ! i) hwAddrPrefix \<ge> 0)
                in if i < length nintendoMacPrefixes \<and> nintendoMacPrefixes ! i = hwAddrPrefix
                   then 1 * Hour
                   else LeasePeriod h))"

subsection \<open>Message handling\<close>

text \<open>What one call of \<^verbatim>\<open>serveDHCP\<close> reads from outside: the reading of \<^verbatim>\<open>h.timeNow()\<close>
  at each of its call sites (inside \<^verbatim>\<open>canLease\<close> for the static lease and for the
  requested address, at the test of the previous lease, inside \<^verbatim>\<open>findLease\<close>, and for
  \<^verbatim>\<open>Expiry\<close> and \<^verbatim>\<open>LastACK\<close> of a new lease), the reading of \<^verbatim>\<open>time.Now()\<close> in
  \<^verbatim>\<open>expireLease\<close>, and the draw of \<^verbatim>\<open>rand.Intn\<close>.\<close>

record Env =
  nowStatic :: Time
  nowRequested :: Time
  nowPrevious :: Time
  nowFind :: Time
  nowExpiry :: Time
  nowLastACK :: Time
  wallNow :: Time
  randDraw :: nat

text \<open>\<^verbatim>\<open>string(b)\<close> of a byte slice.\<close>

definition bytesToString :: "byte list \<Rightarrow> string" where
  "bytesToString bs = map (\<lambda>b. char_of (unat b)) bs"

text \<open>\<^verbatim>\<open>serveDHCP\<close>. The result is a panic, or the reply (\<open>None\<close> is nil) and the handler
  after the call.\<close>

definition serveDHCP ::
  "Handler \<Rightarrow> byte list list \<Rightarrow> Env \<Rightarrow> Packet \<Rightarrow> MessageType \<Rightarrow> (byte \<rightharpoonup> byte list)
   \<Rightarrow> panic + (Reply option \<times> Handler)" where
  "serveDHCP h nintendoMacPrefixes env p msgType opts =
     (let reqIP = (case opts OptionRequestedIPAddress of None \<Rightarrow> CIAddr p | Some v \<Rightarrow> v);
          hwAddr = HardwareAddr_String (CHAddr p)
      in
      case msgType of
        Discover \<Rightarrow>
          (case (case staticLeases h (ToLower hwAddr) of
                   None \<Rightarrow> Inr (- 1)
                 | Some sl \<Rightarrow> canLease h (nowStatic env) (staticAddr sl) hwAddr) of
             Inl e \<Rightarrow> Inl e
           | Inr free1 \<Rightarrow>
               (case (if free1 < 0 \<and> \<not> IP_Equal (To4 reqIP) IPv4zero
                      then canLease h (nowRequested env) reqIP hwAddr
                      else Inr free1) of
                  Inl e \<Rightarrow> Inl e
                | Inr free2 \<Rightarrow>
                    (let free3 = (case leaseHW h hwAddr of
                                    None \<Rightarrow> free2
                                  | Some lease \<Rightarrow>
                                      if \<not> Expired lease (nowPrevious env) then Num lease
                                      else free2);
                         free = (if free3 = - 1 then findLease h (nowFind env) (randDraw env)
                                 else free3)
                     in
                     if free = - 1 then Inr (None, h)
                     else
                       (case IPAdd (start h) free of
                          Inl e \<Rightarrow> Inl e
                        | Inr ip \<Rightarrow>
                            Inr (Some (ReplyPacket p Offer (serverIP h) ip
                                         (leasePeriodForDevice h nintendoMacPrefixes hwAddr)
                                         (SelectOrderOrAll (options h)
                                            (opts OptionParameterRequestList))),
                                 h)))))
      | Request \<Rightarrow>
          if (case opts OptionServerIdentifier of
                None \<Rightarrow> False
              | Some server \<Rightarrow> \<not> IP_Equal server (serverIP h))
          then Inr (None, h)
          else
            (case canLease h (nowRequested env) reqIP hwAddr of
               Inl e \<Rightarrow> Inl e
             | Inr leaseNum \<Rightarrow>
                 if leaseNum = - 1
                 then Inr (Some (ReplyPacket p NAK (serverIP h) [] 0 (Selected [])), h)
                 else
                   (let lease0 =
                          \<lparr> Num = leaseNum, Addr = copy4 (To4 reqIP), HardwareAddr = hwAddr,
                            Hostname = (case opts OptionHostName of
                                          None \<Rightarrow> [] | Some v \<Rightarrow> bytesToString v),
                            HostnameOverride = [],
                            Expiry = nowExpiry env
                                     + leasePeriodForDevice h nintendoMacPrefixes hwAddr,
                            LastACK = nowLastACK env \<rparr>;
                        (lease, h1) =
                          (case leaseHW h hwAddr of
                             None \<Rightarrow> (lease0, h)
                           | Some l \<Rightarrow>
                               (let lease1 = (if Expiry l = 0
                                              then lease0\<lparr>Expiry := 0, Hostname := Hostname l\<rparr>
                                              else lease0);
                                    lease2 = (if HostnameOverride l \<noteq> []
                                              then lease1\<lparr>Hostname := HostnameOverride l,
                                                          HostnameOverride := HostnameOverride l\<rparr>
                                              else lease1)
                                in (lease2, h\<lparr>leasesIP := (leasesIP h)(Num l := None)\<rparr>)));
                        h2 = h1\<lparr>leasesIP := (leasesIP h1)(leaseNum \<mapsto> lease),
                                leasesHW := (leasesHW h1)(HardwareAddr lease \<mapsto> leaseNum)\<rparr>;
                        h3 = callLeasesLocked h2 lease
                    in Inr (Some (ReplyPacket p ACK (serverIP h) reqIP
                                    (leasePeriodForDevice h nintendoMacPrefixes hwAddr)
                                    (SelectOrderOrAll (options h)
                                       (opts OptionParameterRequestList))),
                            h3)))
      | Decline \<Rightarrow> Inr (None, snd (expireLease h (wallNow env) hwAddr))
      | _ \<Rightarrow> Inr (None, h))"

subsection \<open>The serve loop, and the properties of the lease database\<close>

text \<open>\<^verbatim>\<open>dhcp4.Serve\<close> hands the packets of one interface to the handler one after the
  other; a panic ends the loop. An input is what one call reads: the environment, the
  packet, its message type and its options.\<close>

type_synonym input = "Env \<times> Packet \<times> MessageType \<times> (byte \<rightharpoonup> byte list)"

fun serveAll :: "Handler \<Rightarrow> byte list list \<Rightarrow> input list \<Rightarrow> panic + Handler" where
  "serveAll h tbl [] = Inr h"
| "serveAll h tbl ((env, p, msgType, opts) # rest) =
     (case serveDHCP h tbl env p msgType opts of
        Inl e \<Rightarrow> Inl e
      | Inr (reply, h') \<Rightarrow> serveAll h' tbl rest)"

text \<open>The invariant of the specification on one lease: its offset lies in the pool and
  its address is the start address plus the offset.\<close>

definition leaseInPool :: "Handler \<Rightarrow> Lease \<Rightarrow> bool" where
  "leaseInPool h l =
     (0 \<le> Num l \<and> Num l < leaseRange h \<and> IPAdd (start h) (Num l) = Inr (Addr l))"

text \<open>Every lease is stored under its own offset (\<^verbatim>\<open>h.leasesIP[l.Num] = l\<close> in
  \<^verbatim>\<open>SetLeases\<close>, \<^verbatim>\<open>h.leasesIP[leaseNum] = lease\<close> in \<^verbatim>\<open>serveDHCP\<close>).\<close>

definition keyedByNum :: "Handler \<Rightarrow> bool" where
  "keyedByNum h = (\<forall>k l. leasesIP h k = Some l \<longrightarrow> Num l = k)"

definition leasesInPool :: "Handler \<Rightarrow> bool" where
  "leasesInPool h = (\<forall>k l. leasesIP h k = Some l \<longrightarrow> leaseInPool h l)"

text \<open>The two directions in which the indices can agree: every entry of \<open>leasesHW\<close>
  points to a lease of that client; every stored lease is found under its client.\<close>

definition hwPointsToOwn :: "Handler \<Rightarrow> bool" where
  "hwPointsToOwn h =
     (\<forall>hw n. leasesHW h hw = Some n \<longrightarrow> (\<exists>l. leasesIP h n = Some l \<and> HardwareAddr l = hw))"

definition leaseIndexed :: "Handler \<Rightarrow> bool" where
  "leaseIndexed h =
     (\<forall>k l. leasesIP h k = Some l \<longrightarrow> Num l = k \<and> leasesHW h (HardwareAddr l) = Some k)"

subsection \<open>A configuration to run the handler on\<close>

text \<open>The pool of the specification's scenarios: server 10.0.0.1, first address
  10.0.0.10, five addresses, an observer registered.\<close>

definition exHandler :: Handler where
  "exHandler =
     \<lparr> serverIP = [10, 0, 0, 1], start = [10, 0, 0, 10], leaseRange = 5,
       LeasePeriod = leasePeriod,
       options = [OptionSubnetMask \<mapsto> [255, 255, 255, 0], OptionRouter \<mapsto> [10, 0, 0, 1],
                  OptionDomainNameServer \<mapsto> [], OptionServerIdentifier \<mapsto> [10, 0, 0, 1]],
       staticLeases = Map.empty, reservedOffsets = {}, Leases = Some [],
       leasesHW = Map.empty, leasesIP = Map.empty \<rparr>"

definition exEnv :: Env where
  "exEnv = \<lparr> nowStatic = 1000, nowRequested = 1000, nowPrevious = 1000, nowFind = 1000,
             nowExpiry = 1000, nowLastACK = 1000, wallNow = 5000, randDraw = 2 \<rparr>"

definition macX :: string where "macX = ''aa:bb:cc:00:00:01''"
definition macY :: string where "macY = ''aa:bb:cc:00:00:02''"

definition packetX :: Packet where
  "packetX = \<lparr> CIAddr = [0, 0, 0, 0], CHAddr = [0xaa, 0xbb, 0xcc, 0, 0, 1] \<rparr>"

definition packetY :: Packet where
  "packetY = \<lparr> CIAddr = [0, 0, 0, 0], CHAddr = [0xaa, 0xbb, 0xcc, 0, 0, 2] \<rparr>"

text \<open>A lease of client X at offset 1 (10.0.0.11) that runs until instant 9000.\<close>

definition leaseX1 :: Lease where
  "leaseX1 = \<lparr> Num = 1, Addr = [10, 0, 0, 11], HardwareAddr = macX, Hostname = ''laptop'',
               HostnameOverride = [], Expiry = 9000, LastACK = 500 \<rparr>"

definition exLeased :: Handler where
  "exLeased = SetLeases exHandler [leaseX1]"

text \<open>Client X declined its lease while the wall clock read 5000.\<close>

definition exDeclined :: Handler where
  "exDeclined =
     exHandler\<lparr>leasesHW := [macX \<mapsto> 1], leasesIP := [1 \<mapsto> leaseX1\<lparr>Expiry := 5000\<rparr>]\<rparr>"

text \<open>The static reservation of the specification's second scenario: 10.0.0.12 for client
  Y. \<open>exStatic\<close> is the handler \<^verbatim>\<open>NewHandler\<close> builds for it.\<close>

definition staticY :: StaticLease where
  "staticY = \<lparr> staticAddr = [10, 0, 0, 12], staticHardwareAddr = macY,
               staticHostname = ''printer'' \<rparr>"

definition exStatic :: Handler where
  "exStatic =
     exHandler\<lparr>staticLeases := [macY \<mapsto> staticY], reservedOffsets := {3}, Leases := None\<rparr>"

text \<open>Client X asks for 10.0.0.11 on the empty pool, and is acknowledged.\<close>

definition request11 :: "byte \<rightharpoonup> byte list" where
  "request11 = [OptionRequestedIPAddress \<mapsto> [10, 0, 0, 11]]"

definition leaseAcked :: Lease where
  "leaseAcked = \<lparr> Num = 1, Addr = [10, 0, 0, 11], HardwareAddr = macX, Hostname = [],
                  HostnameOverride = [], Expiry = 1000 + leasePeriod, LastACK = 1000 \<rparr>"

definition exAcked :: Handler where
  "exAcked =
     exHandler\<lparr>leasesHW := [macX \<mapsto> 1], leasesIP := [1 \<mapsto> leaseAcked],
                Leases := Some [([1 \<mapsto> leaseAcked], leaseAcked)]\<rparr>"

text \<open>The operator renames the lease of client X.\<close>

definition leaseRenamed :: Lease where
  "leaseRenamed = leaseX1\<lparr>Hostname := ''work-laptop'', HostnameOverride := ''work-laptop''\<rparr>"

definition exRenamed :: Handler where
  "exRenamed =
     exHandler\<lparr>leasesHW := [macX \<mapsto> 1], leasesIP := [1 \<mapsto> leaseRenamed],
                Leases := Some [([1 \<mapsto> leaseRenamed], leaseRenamed)]\<rparr>"

text \<open>The reading of the specification's lease period policy: the table is sorted in the
  order of \<^verbatim>\<open>bytes.Compare\<close>, and a hardware address matches when it parses to six bytes
  whose first three are an entry of the table.\<close>

definition sortedPrefixes :: "byte list list \<Rightarrow> bool" where
  "sortedPrefixes tbl = sorted_wrt (\<lambda>a b. bytes_Compare a b \<le> 0) tbl"

definition ouiMatch :: "byte list list \<Rightarrow> string \<Rightarrow> bool" where
  "ouiMatch tbl hw =
     (case DecodeString (removeColons hw) of
        Inl e \<Rightarrow> False
      | Inr mac \<Rightarrow> length mac = 6 \<and> take 3 mac \<in> set tbl)"

text \<open>A table of two prefixes, and a client N whose address starts with the first.\<close>

definition exPrefixes :: "byte list list" where
  "exPrefixes = [[0x00, 0x17, 0xab], [0x00, 0x19, 0x1d]]"

definition macN :: string where "macN = ''00:17:ab:00:00:01''"

definition packetN :: Packet where
  "packetN = \<lparr> CIAddr = [0, 0, 0, 0], CHAddr = [0x00, 0x17, 0xab, 0, 0, 1] \<rparr>"

text \<open>The lease of client X at offset 3 (10.0.0.13) ran out at instant 400; it carries an
  operator's hostname. \<open>exExpired\<close> is the handler restored from it. Client Y then asks for
  10.0.0.13 and takes the offset over: \<open>exTaken\<close>.\<close>

definition leaseX3 :: Lease where
  "leaseX3 = \<lparr> Num = 3, Addr = [10, 0, 0, 13], HardwareAddr = macX, Hostname = ''laptop'',
               HostnameOverride = ''pinned'', Expiry = 400, LastACK = 100 \<rparr>"

definition exExpired :: Handler where
  "exExpired = SetLeases exHandler [leaseX3]"

definition request13 :: "byte \<rightharpoonup> byte list" where
  "request13 = [OptionRequestedIPAddress \<mapsto> [10, 0, 0, 13]]"

definition leaseY3 :: Lease where
  "leaseY3 = \<lparr> Num = 3, Addr = [10, 0, 0, 13], HardwareAddr = macY, Hostname = [],
               HostnameOverride = [], Expiry = 1000 + leasePeriod, LastACK = 1000 \<rparr>"

definition exTaken :: Handler where
  "exTaken =
     exHandler\<lparr>leasesHW := [macX \<mapsto> 3, macY \<mapsto> 3], leasesIP := [3 \<mapsto> leaseY3],
                Leases := Some [([3 \<mapsto> leaseY3], leaseY3)]\<rparr>"






section \<open>Properties\<close>

subsection \<open>Evaluating the example configuration\<close>

lemma str_X: "HardwareAddr_String (CHAddr packetX) = macX"
  by (simp add: packetX_def macX_def hexDigit_def drop_bit_eq_div)

lemma str_Y: "HardwareAddr_String (CHAddr packetY) = macY"
  by (simp add: packetY_def macY_def hexDigit_def drop_bit_eq_div)

lemma exLeased_eq:
  "exLeased = exHandler\<lparr>leasesHW := [macX \<mapsto> 1], leasesIP := [1 \<mapsto> leaseX1]\<rparr>"
  by (simp add: exLeased_def SetLeases_def leaseX1_def exHandler_def)

subsection \<open>A REQUEST for another server\<close>

text \<open>Claim C7. A REQUEST whose option 54 (ServerIdentifier) is present and is not our
  \<open>serverIP\<close> (under \<^verbatim>\<open>net.IP.Equal\<close>, the comparison the code makes) gets no reply and
  leaves the whole handler as it was: both indices, every lease, the observer's calls.\<close>

theorem request_other_server_dropped:
  "opts OptionServerIdentifier = Some server \<Longrightarrow> \<not> IP_Equal server (serverIP h) \<Longrightarrow>
   serveDHCP h tbl env p Request opts = Inr (None, h)"
  by (simp add: serveDHCP_def)

theorem request_other_server_dropped_witness:
  "\<not> IP_Equal [192, 0, 2, 1] (serverIP exLeased) \<and>
   serveDHCP exLeased [] exEnv packetX Request
     [OptionServerIdentifier \<mapsto> [192, 0, 2, 1], OptionRequestedIPAddress \<mapsto> [10, 0, 0, 11]]
     = Inr (None, exLeased)"
proof -
  have ne: "\<not> IP_Equal [192, 0, 2, 1] (serverIP exLeased)"
    by (simp add: exLeased_eq exHandler_def IP_Equal_def)
  have "[OptionServerIdentifier \<mapsto> [192, 0, 2, 1],
         OptionRequestedIPAddress \<mapsto> [10, 0, 0, 11::byte]] OptionServerIdentifier
        = Some [192, 0, 2, 1]"
    by (simp add: OptionServerIdentifier_def OptionRequestedIPAddress_def)
  from request_other_server_dropped [where h = exLeased and server = "[192, 0, 2, 1]"
      and opts = "[OptionServerIdentifier \<mapsto> [192, 0, 2, 1],
                   OptionRequestedIPAddress \<mapsto> [10, 0, 0, 11]]", OF this ne] ne
  show ?thesis by simp
qed

subsection \<open>SetHostname\<close>

text \<open>Claim C5. SetHostname is meant to fail with an error when no lease exists for the
  hardware address. The code reads \<^verbatim>\<open>h.leasesIP[h.leasesHW[hwaddr]]\<close> without testing
  either lookup: when the offset it arrives at (0 for an unknown address) holds no lease,
  \<^verbatim>\<open>lease.HardwareAddr\<close> dereferences nil and the call panics instead of returning.\<close>

theorem SetHostname_nil_lease_panics:
  "leasesIP h (case leasesHW h hwaddr of None \<Rightarrow> 0 | Some n \<Rightarrow> n) = None \<Longrightarrow>
   SetHostname h now hwaddr hostname = Inl NilDereference"
  by (simp add: SetHostname_def)

theorem SetHostname_nil_lease_panics_witness:
  "leasesHW exHandler macX = None \<and> leasesIP exHandler 0 = None \<and>
   SetHostname exHandler 1000 macX ''work-laptop'' = Inl NilDereference"
  using SetHostname_nil_lease_panics [of exHandler macX 1000 "''work-laptop''"]
  by (simp add: exHandler_def)

subsection \<open>More evaluations of the example configuration\<close>

lemma period_X: "leasePeriodForDevice h [] macX = LeasePeriod h"
  by (simp add: leasePeriodForDevice_def macX_def removeColons_def fromHexChar_def Search_def)

lemma lower_X: "ToLower macX = macX"
  by (simp add: ToLower_def lowerChar_def macX_def)

lemma zero_req: "IP_Equal (To4 [0, 0, 0, 0]) IPv4zero"
  by (simp add: To4_def IP_Equal_def IPv4zero_def v4InV6Prefix_def)

lemma add_ex: "IPAdd [10, 0, 0, 10] 2 = Inr [10, 0, 0, 12]"
  by (simp add: IPAdd_def To4_def Uint32_def PutUint32_def drop_bit_eq_div)

lemma range_ex11: "IPRange [10, 0, 0, 10] [10, 0, 0, 11] = Inr 2"
  by (simp add: IPRange_def To4_def Uint32_def)

lemma range_ex12: "IPRange [10, 0, 0, 10] [10, 0, 0, 12] = Inr 3"
  by (simp add: IPRange_def To4_def Uint32_def)

lemma nonzero11: "\<not> IP_Equal [10, 0, 0, 11] IPv4zero"
  by (simp add: IP_Equal_def IPv4zero_def v4InV6Prefix_def)

lemma canLease_X11: "canLease exHandler t [10, 0, 0, 11] hw = Inr 1"
  by (simp add: canLease_def nonzero11 exHandler_def range_ex11)

lemma hw_leaseX1: "HardwareAddr leaseX1 = macX"
  by (simp add: leaseX1_def)

lemma request_ex:
  "serveDHCP exHandler [] exEnv packetX Request request11
     = Inr (Some (ReplyPacket packetX ACK [10, 0, 0, 1] [10, 0, 0, 11] leasePeriod
                    (AllOptions (options exHandler))), exAcked)"
proof -
  have 1: "request11 OptionRequestedIPAddress = Some [10, 0, 0, 11]"
    "request11 OptionServerIdentifier = None" "request11 OptionHostName = None"
    "request11 OptionParameterRequestList = None"
    by (simp_all add: request11_def OptionRequestedIPAddress_def OptionServerIdentifier_def
          OptionHostName_def OptionParameterRequestList_def)
  have 2: "leaseHW exHandler macX = None" by (simp add: leaseHW_def exHandler_def)
  have 3: "serverIP exHandler = [10, 0, 0, 1]" "LeasePeriod exHandler = leasePeriod"
    "Leases exHandler = Some []" "leasesIP exHandler = Map.empty" "leasesHW exHandler = Map.empty"
    by (simp_all add: exHandler_def)
  have 4: "copy4 (To4 [10, 0, 0, 11]) = [10, 0, 0, 11]" by (simp add: copy4_def To4_def)
  have 5: "nowExpiry exEnv = 1000" "nowLastACK exEnv = 1000" by (simp_all add: exEnv_def)
  show ?thesis
    by (simp add: serveDHCP_def str_X period_X Let_def SelectOrderOrAll_def 1 2 3 4 5
          canLease_X11 callLeasesLocked_def exAcked_def leaseAcked_def)
qed

lemma rename_ex: "SetHostname exLeased 1000 macX ''work-laptop'' = Inr (None, exRenamed)"
  by (simp add: SetHostname_def exLeased_eq Let_def Expired_def callLeasesLocked_def
        exRenamed_def leaseRenamed_def exHandler_def leaseX1_def)

lemma decline_ex: "serveDHCP exLeased [] exEnv packetX Decline Map.empty = Inr (None, exDeclined)"
  by (simp add: serveDHCP_def expireLease_def str_X exLeased_eq exDeclined_def exEnv_def
        hw_leaseX1)

lemma discover_ex:
  "serveDHCP exStatic [] exEnv packetX Discover Map.empty
     = Inr (Some (ReplyPacket packetX Offer [10, 0, 0, 1] [10, 0, 0, 12] leasePeriod
                    (AllOptions (options exStatic))), exStatic)"
proof -
  have 1: "staticLeases exStatic (ToLower macX) = None"
    unfolding lower_X by (simp add: exStatic_def macX_def macY_def)
  have 2: "CIAddr packetX = [0, 0, 0, 0]" by (simp add: packetX_def)
  have 3: "leaseHW exStatic macX = None" by (simp add: leaseHW_def exStatic_def exHandler_def)
  have 4: "findLease exStatic (nowFind exEnv) (randDraw exEnv) = 2"
    by (simp add: findLease_def freeAt_def rand_Intn_def exStatic_def exHandler_def exEnv_def)
  have 5: "start exStatic = [10, 0, 0, 10]" "serverIP exStatic = [10, 0, 0, 1]"
    "LeasePeriod exStatic = leasePeriod"
    by (simp_all add: exStatic_def exHandler_def)
  show ?thesis
    by (simp add: serveDHCP_def str_X period_X Let_def SelectOrderOrAll_def 1 2 3 4 5 zero_req
          add_ex)
qed

subsection \<open>DECLINE\<close>

text \<open>Claim C6. A DECLINE from a client that holds a lease is meant to set the lease's
  expiry to the instant the injected clock reads, so that the lease is expired relative to
  that clock right away. \<^verbatim>\<open>expireLease\<close> stores \<^verbatim>\<open>time.Now()\<close> instead, the only read of the
  wall clock in the handler: the lease then counts as expired at a reading \<open>t\<close> of the
  injected clock only when \<open>t\<close> lies after the wall clock's instant. There is no reply.\<close>

theorem decline_expiry_from_wall_clock:
  assumes "leasesHW h (HardwareAddr_String (CHAddr p)) = Some n"
    and "leasesIP h n = Some l"
    and "HardwareAddr l = HardwareAddr_String (CHAddr p)"
  shows "serveDHCP h tbl env p Decline opts
           = Inr (None, h\<lparr>leasesIP := (leasesIP h)(n \<mapsto> l\<lparr>Expiry := wallNow env\<rparr>)\<rparr>)
         \<and> (Expired (l\<lparr>Expiry := wallNow env\<rparr>) t \<longleftrightarrow> wallNow env \<noteq> 0 \<and> wallNow env < t)"
  using assms by (simp add: serveDHCP_def expireLease_def Expired_def)

theorem decline_expiry_from_wall_clock_witness:
  "serveDHCP exLeased [] exEnv packetX Decline Map.empty
     = Inr (None, exLeased\<lparr>leasesIP := (leasesIP exLeased)(1 \<mapsto> leaseX1\<lparr>Expiry := 5000\<rparr>)\<rparr>)
   \<and> \<not> Expired (leaseX1\<lparr>Expiry := 5000\<rparr>) 1000"
  using decline_expiry_from_wall_clock [of exLeased packetX 1 leaseX1 "[]" exEnv Map.empty 1000]
  by (simp add: str_X exLeased_eq leaseX1_def exEnv_def)

subsection \<open>The observer\<close>

text \<open>Claim C9, as stated: every mutation of the lease database, the expiry marking of
  DECLINE included, publishes a snapshot to the registered observer. It fails for
  DECLINE: the lease of client X changes and the observer receives no call.\<close>

theorem decline_without_observer_counterexample:
  "serveDHCP exLeased [] exEnv packetX Decline Map.empty = Inr (None, exDeclined)
   \<and> leasesIP exDeclined 1 \<noteq> leasesIP exLeased 1
   \<and> Leases exLeased = Some [] \<and> Leases exDeclined = Some []"
  by (simp add: decline_ex) (simp add: exLeased_eq exDeclined_def leaseX1_def exHandler_def)

text \<open>Claim C9, amended. With an observer registered, a call of \<^verbatim>\<open>serveDHCP\<close> other than a
  DECLINE either leaves the handler as it was or is an acknowledged REQUEST that calls the
  observer with the leases of the new state and the lease just stored; a call of
  \<^verbatim>\<open>SetHostname\<close> that returns either fails and leaves the handler as it was, or calls the
  observer with the leases of the new state and the renamed lease. A DECLINE never calls
  the observer (\<^verbatim>\<open>Leases\<close> is documented as called when a lease is handed out).\<close>

theorem observer_called_on_ack_and_rename:
  "(serveDHCP h tbl env p msgType opts = Inr (r, h') \<and> msgType \<noteq> Decline \<and> Leases h = Some calls
      \<longrightarrow> h' = h \<or> (\<exists>rep lease. r = Some rep \<and> messageType rep = ACK
                         \<and> Leases h' = Some (calls @ [(leasesIP h', lease)])
                         \<and> leasesIP h' (Num lease) = Some lease))
   \<and> (SetHostname h now hw name = Inr (err, h') \<and> Leases h = Some calls
      \<longrightarrow> (err \<noteq> None \<and> h' = h)
          \<or> (err = None \<and> (\<exists>n lease. Leases h' = Some (calls @ [(leasesIP h', lease)])
                              \<and> leasesIP h' n = Some lease
                              \<and> Hostname lease = name \<and> HostnameOverride lease = name)))
   \<and> (serveDHCP h tbl env p Decline opts = Inr (r, h') \<longrightarrow> r = None \<and> Leases h' = Leases h)"
proof (intro conjI impI)
  assume a: "serveDHCP h tbl env p msgType opts = Inr (r, h') \<and> msgType \<noteq> Decline
             \<and> Leases h = Some calls"
  show "h' = h \<or> (\<exists>rep lease. r = Some rep \<and> messageType rep = ACK
                         \<and> Leases h' = Some (calls @ [(leasesIP h', lease)])
                         \<and> leasesIP h' (Num lease) = Some lease)"
  proof (cases msgType)
    case Discover
    with a show ?thesis
      by (auto simp add: serveDHCP_def Let_def split: sum.splits if_splits)
  next
    case Request
    with a show ?thesis
      by (auto simp add: serveDHCP_def Let_def callLeasesLocked_def ReplyPacket_def
               split: sum.splits if_splits option.splits)
  qed (use a in \<open>auto simp add: serveDHCP_def\<close>)
next
  assume a: "SetHostname h now hw name = Inr (err, h') \<and> Leases h = Some calls"
  then show "(err \<noteq> None \<and> h' = h)
          \<or> (err = None \<and> (\<exists>n lease. Leases h' = Some (calls @ [(leasesIP h', lease)])
                              \<and> leasesIP h' n = Some lease
                              \<and> Hostname lease = name \<and> HostnameOverride lease = name))"
    by (auto simp add: SetHostname_def Let_def callLeasesLocked_def split: option.splits if_splits)
next
  assume a: "serveDHCP h tbl env p Decline opts = Inr (r, h')"
  then show "r = None" by (simp add: serveDHCP_def)
  from a show "Leases h' = Leases h"
    by (auto simp add: serveDHCP_def expireLease_def Let_def split: option.splits if_splits)
qed

theorem observer_called_on_ack_and_rename_witness:
  "serveDHCP exHandler [] exEnv packetX Request request11
     = Inr (Some (ReplyPacket packetX ACK [10, 0, 0, 1] [10, 0, 0, 11] leasePeriod
                    (AllOptions (options exHandler))), exAcked)
   \<and> Leases exHandler = Some []
   \<and> Leases exAcked = Some [(leasesIP exAcked, leaseAcked)]
   \<and> SetHostname exLeased 1000 macX ''work-laptop'' = Inr (None, exRenamed)
   \<and> Leases exLeased = Some []
   \<and> Leases exRenamed = Some [(leasesIP exRenamed, leaseRenamed)]
   \<and> serveDHCP exLeased [] exEnv packetX Decline Map.empty = Inr (None, exDeclined)
   \<and> Leases exDeclined = Leases exLeased"
proof -
  have l: "Leases exHandler = Some []" "Leases exLeased = Some []"
    by (simp_all add: exLeased_eq exHandler_def)
  have "exAcked \<noteq> exHandler" "exRenamed \<noteq> exLeased"
    by (auto simp add: exAcked_def exRenamed_def exLeased_eq exHandler_def
          dest!: arg_cong [where f = Leases])
  with observer_called_on_ack_and_rename [of exHandler "[]" exEnv packetX Request request11
      "Some (ReplyPacket packetX ACK [10, 0, 0, 1] [10, 0, 0, 11] leasePeriod
               (AllOptions (options exHandler)))" exAcked "[]" 1000 macX "''work-laptop''" None]
    observer_called_on_ack_and_rename [of exLeased "[]" exEnv packetX Decline Map.empty
      None exRenamed "[]" 1000 macX "''work-laptop''" None]
    observer_called_on_ack_and_rename [of exLeased "[]" exEnv packetX Decline Map.empty
      None exDeclined "[]" 1000 macX "''work-laptop''" None]
    request_ex rename_ex decline_ex l
  show ?thesis
    by (auto simp add: exAcked_def exRenamed_def)
qed

subsection \<open>Static reservations\<close>

text \<open>Claim C3. The pool offset of a static lease, the \<open>n\<close> with address = start + \<open>n\<close>,
  is meant to be reserved, so that dynamic allocation never returns it. \<^verbatim>\<open>NewHandler\<close>
  reserves \<^verbatim>\<open>IPRange(startIP, sl.Addr)\<close>, the number of addresses from the start to the
  static one, which is that offset plus one (\<^verbatim>\<open>canLease\<close> subtracts the one, and
  \<^verbatim>\<open>NewHandler\<close> does not). For a handler built with one static lease whose address lies
  in the pool: the reserved offset is \<open>n\<close>, the static client is served at \<open>n - 1\<close>, and
  \<^verbatim>\<open>findLease\<close> returns \<open>n - 1\<close> when the random probe hits it.\<close>

theorem static_reservation_off_by_one:
  assumes nh: "NewHandler ParseIP sIP startIP netMask rng period [] [sl] = Inr (Inr h)"
    and len: "length (staticAddr sl) = 4"
    and nz: "\<not> IP_Equal (staticAddr sl) IPv4zero"
    and n: "IPRange (start h) (staticAddr sl) = Inr n"
    and bounds: "1 \<le> n" "n \<le> leaseRange h"
    and r: "rand_Intn r (leaseRange h) = n - 1"
  shows "reservedOffsets h = {n} \<and> canLease h now (staticAddr sl) hw = Inr (n - 1)
         \<and> findLease h now' r = n - 1"
proof -
  from nh obtain n' where n': "IPRange (To4 startIP) (staticAddr sl) = Inr n'"
    by (auto simp add: NewHandler_def Let_def split: sum.splits)
  from nh n' have st: "start h = To4 startIP" and res: "reservedOffsets h = {n'}"
    and emp: "leasesIP h = Map.empty"
    by (auto simp add: NewHandler_def Let_def split: sum.splits)
  from n n' st have nn: "n' = n" by simp
  have c: "canLease h now (staticAddr sl) hw = Inr (n - 1)"
    using len nz n bounds emp by (simp add: canLease_def Let_def)
  have "freeAt h now' (n - 1)" using emp res nn by (simp add: freeAt_def)
  then have f: "findLease h now' r = n - 1"
    using emp bounds r by (simp add: findLease_def Let_def)
  from res nn c f show ?thesis by simp
qed

theorem static_reservation_off_by_one_witness:
  "NewHandler (\<lambda>s. []) [10, 0, 0, 1] [10, 0, 0, 10] [255, 255, 255, 0] 5 leasePeriod [] [staticY]
     = Inr (Inr exStatic)
   \<and> IPAdd (start exStatic) 2 = Inr (staticAddr staticY)
   \<and> reservedOffsets exStatic = {3}
   \<and> canLease exStatic 1000 (staticAddr staticY) macY = Inr 2
   \<and> findLease exStatic 1000 2 = 2
   \<and> serveDHCP exStatic [] exEnv packetX Discover Map.empty
       = Inr (Some (ReplyPacket packetX Offer [10, 0, 0, 1] [10, 0, 0, 12] leasePeriod
                      (AllOptions (options exStatic))), exStatic)"
proof -
  have nh: "NewHandler (\<lambda>s. []) [10, 0, 0, 1] [10, 0, 0, 10] [255, 255, 255, 0] 5 leasePeriod []
              [staticY] = Inr (Inr exStatic)"
    by (simp add: NewHandler_def staticY_def exStatic_def exHandler_def To4_def Uint32_def
          IPRange_def macY_def ToLower_def lowerChar_def Let_def)
  have add: "IPAdd (start exStatic) 2 = Inr (staticAddr staticY)"
    by (simp add: exStatic_def exHandler_def staticY_def add_ex)
  have a: "length (staticAddr staticY) = 4" by (simp add: staticY_def)
  have b: "\<not> IP_Equal (staticAddr staticY) IPv4zero"
    by (simp add: staticY_def IP_Equal_def IPv4zero_def v4InV6Prefix_def)
  have c: "IPRange (start exStatic) (staticAddr staticY) = Inr 3"
    by (simp add: exStatic_def exHandler_def staticY_def range_ex12)
  have d: "rand_Intn 2 (leaseRange exStatic) = 3 - 1"
    by (simp add: rand_Intn_def exStatic_def exHandler_def)
  from static_reservation_off_by_one [OF nh a b c _ _ d, of 1000 macY 1000] nh add discover_ex
  show ?thesis by (simp add: exStatic_def exHandler_def)
qed

subsection \<open>The lease period of a device\<close>

lemma bytes_Compare_nonneg: "bytes_Compare a b \<ge> 0 \<longleftrightarrow> b \<le> a"
  by (induction a b rule: bytes_Compare.induct) auto

lemma bytes_Compare_nonpos: "bytes_Compare a b \<le> 0 \<longleftrightarrow> a \<le> b"
  by (induction a b rule: bytes_Compare.induct) auto

lemma sortedPrefixes_sorted: "sortedPrefixes tbl \<longleftrightarrow> sorted tbl"
  by (simp add: sortedPrefixes_def bytes_Compare_nonpos)

lemma Search_loop_done: "Search_loop j j f = j"
  by (subst Search_loop.simps) simp

lemma Search_loop_right:
  "i < j \<Longrightarrow> \<not> f ((i + j) div 2) \<Longrightarrow> Search_loop i j f = Search_loop ((i + j) div 2 + 1) j f"
  by (subst Search_loop.simps) (simp add: Let_def)

lemma Search_loop_left:
  "i < j \<Longrightarrow> f ((i + j) div 2) \<Longrightarrow> Search_loop i j f = Search_loop i ((i + j) div 2) f"
  by (subst Search_loop.simps) (simp add: Let_def)

text \<open>The binary search returns the least index at which a monotone predicate holds.\<close>

lemma Search_loop_least:
  assumes "i \<le> j" "j \<le> n"
    and "\<forall>a b. a \<le> b \<and> b < n \<and> f a \<longrightarrow> f b"
    and "\<forall>k<i. \<not> f k" and "\<forall>k. j \<le> k \<and> k < n \<longrightarrow> f k"
  shows "Search_loop i j f \<le> n \<and> (\<forall>k < Search_loop i j f. \<not> f k)
         \<and> (\<forall>k. Search_loop i j f \<le> k \<and> k < n \<longrightarrow> f k)"
  using assms
proof (induction i j f rule: Search_loop.induct)
  case (1 i j f)
  show ?case
  proof (cases "i < j")
    case False
    with "1.prems" have "i = j" by simp
    with "1.prems" show ?thesis by (simp add: Search_loop_done)
  next
    case True
    define h where "h = (i + j) div 2"
    have hb: "i \<le> h" "h < j" using True by (simp_all add: h_def)
    show ?thesis
    proof (cases "f h")
      case False
      have lo: "\<forall>k<h + 1. \<not> f k"
      proof (intro allI impI)
        fix k assume "k < h + 1"
        then have "k \<le> h \<and> h < n" using hb "1.prems"(2) by simp
        with False "1.prems"(3) show "\<not> f k" by blast
      qed
      have e: "Search_loop i j f = Search_loop (h + 1) j f"
        using True False unfolding h_def by (rule Search_loop_right)
      have "h + 1 \<le> j" using hb by simp
      from "1.IH"(1) [OF True h_def False this "1.prems"(2,3) lo "1.prems"(5)]
      show ?thesis unfolding e .
    next
      case fh: True
      have hi: "\<forall>k. h \<le> k \<and> k < n \<longrightarrow> f k"
        using fh "1.prems"(3) by blast
      have e: "Search_loop i j f = Search_loop i h f"
        using True fh unfolding h_def by (rule Search_loop_left)
      have c: "\<not> \<not> f h" using fh by simp
      have "h \<le> n" using hb "1.prems"(2) by simp
      from "1.IH"(2) [OF True h_def c hb(1) this "1.prems"(3,4) hi]
      show ?thesis unfolding e .
    qed
  qed
qed

lemma Search_finds:
  assumes "sorted tbl"
  shows "(let i = Search (length tbl) (\<lambda>i. bytes_Compare (tbl ! i) x \<ge> 0)
          in i < length tbl \<and> tbl ! i = x) \<longleftrightarrow> x \<in> set tbl"
proof -
  define f where "f = (\<lambda>i. bytes_Compare (tbl ! i) x \<ge> 0)"
  define r where "r = Search (length tbl) f"
  have mono: "\<forall>a b. a \<le> b \<and> b < length tbl \<and> f a \<longrightarrow> f b"
  proof (intro allI impI)
    fix a b assume h: "a \<le> b \<and> b < length tbl \<and> f a"
    then have "tbl ! a \<le> tbl ! b" using assms by (simp add: sorted_iff_nth_mono)
    moreover from h have "x \<le> tbl ! a" by (simp add: f_def bytes_Compare_nonneg)
    ultimately show "f b" by (simp add: f_def bytes_Compare_nonneg)
  qed
  have r: "r \<le> length tbl \<and> (\<forall>k < r. \<not> f k) \<and> (\<forall>k. r \<le> k \<and> k < length tbl \<longrightarrow> f k)"
    unfolding r_def Search_def
    by (rule Search_loop_least [OF _ _ mono]) auto
  have "(r < length tbl \<and> tbl ! r = x) \<longleftrightarrow> x \<in> set tbl"
  proof
    assume "r < length tbl \<and> tbl ! r = x"
    then show "x \<in> set tbl" by auto
  next
    assume "x \<in> set tbl"
    then obtain k where k: "k < length tbl" "tbl ! k = x" by (auto simp add: in_set_conv_nth)
    then have "f k" by (simp add: f_def bytes_Compare_nonneg)
    with r have rk: "r \<le> k" by (meson not_le)
    with k have rl: "r < length tbl" by simp
    with r have "f r" by blast
    then have "x \<le> tbl ! r" by (simp add: f_def bytes_Compare_nonneg)
    moreover have "tbl ! r \<le> x" using assms rk k by (auto simp add: sorted_iff_nth_mono)
    ultimately show "r < length tbl \<and> tbl ! r = x" using rl by simp
  qed
  then show ?thesis by (simp add: r_def f_def Let_def)
qed

lemma leasePeriodForDevice_eq:
  assumes "sortedPrefixes tbl"
  shows "leasePeriodForDevice h tbl hw = (if ouiMatch tbl hw then Hour else LeasePeriod h)"
proof (cases "DecodeString (removeColons hw)")
  case (Inl e)
  then show ?thesis by (simp add: leasePeriodForDevice_def ouiMatch_def)
next
  case (Inr mac)
  from assms have s: "sorted tbl" by (simp add: sortedPrefixes_sorted)
  show ?thesis
    using Search_finds [OF s, of "take 3 mac"] Inr
    by (simp add: leasePeriodForDevice_def ouiMatch_def Let_def)
qed

lemma str_N: "HardwareAddr_String (CHAddr packetN) = macN"
  by (simp add: packetN_def macN_def hexDigit_def drop_bit_eq_div)

lemma sorted_ex: "sortedPrefixes exPrefixes"
  by (simp add: sortedPrefixes_def exPrefixes_def)

lemma match_N: "ouiMatch exPrefixes macN"
  by (simp add: ouiMatch_def exPrefixes_def macN_def removeColons_def fromHexChar_def)

lemma nomatch_X: "\<not> ouiMatch exPrefixes macX"
  by (simp add: ouiMatch_def exPrefixes_def macX_def removeColons_def fromHexChar_def)

lemma request_N_ex:
  "serveDHCP exHandler exPrefixes exEnv packetN Request request11
     = Inr (Some (ReplyPacket packetN ACK [10, 0, 0, 1] [10, 0, 0, 11] Hour
                    (AllOptions (options exHandler))),
            exHandler\<lparr>leasesHW := [macN \<mapsto> 1],
                       leasesIP := [1 \<mapsto> leaseAcked\<lparr>HardwareAddr := macN, Expiry := 1000 + Hour\<rparr>],
                       Leases := Some [([1 \<mapsto> leaseAcked\<lparr>HardwareAddr := macN,
                                                          Expiry := 1000 + Hour\<rparr>],
                                        leaseAcked\<lparr>HardwareAddr := macN, Expiry := 1000 + Hour\<rparr>)]\<rparr>)"
proof -
  have 1: "request11 OptionRequestedIPAddress = Some [10, 0, 0, 11]"
    "request11 OptionServerIdentifier = None" "request11 OptionHostName = None"
    "request11 OptionParameterRequestList = None"
    by (simp_all add: request11_def OptionRequestedIPAddress_def OptionServerIdentifier_def
          OptionHostName_def OptionParameterRequestList_def)
  have 2: "leaseHW exHandler macN = None" by (simp add: leaseHW_def exHandler_def)
  have 3: "serverIP exHandler = [10, 0, 0, 1]"
    "Leases exHandler = Some []" "leasesIP exHandler = Map.empty" "leasesHW exHandler = Map.empty"
    by (simp_all add: exHandler_def)
  have 4: "copy4 (To4 [10, 0, 0, 11]) = [10, 0, 0, 11]" by (simp add: copy4_def To4_def)
  have 5: "nowExpiry exEnv = 1000" "nowLastACK exEnv = 1000" by (simp_all add: exEnv_def)
  have 6: "leasePeriodForDevice exHandler exPrefixes macN = Hour"
    by (simp add: leasePeriodForDevice_eq [OF sorted_ex] match_N)
  show ?thesis
    by (simp add: serveDHCP_def str_N 6 Let_def SelectOrderOrAll_def 1 2 3 4 5
          canLease_X11 callLeasesLocked_def leaseAcked_def)
qed

lemma hour_bytes: "OptionsLeaseTime Hour = [0, 0, 14, 16]"
  by (simp add: OptionsLeaseTime_def Hour_def Minute_def PutUint32_def drop_bit_eq_div)

lemma default_bytes: "OptionsLeaseTime leasePeriod = [0, 0, 4, 176]"
  by (simp add: OptionsLeaseTime_def leasePeriod_def Minute_def PutUint32_def drop_bit_eq_div)

lemma period_XP: "leasePeriodForDevice h exPrefixes macX = LeasePeriod h"
  by (simp add: leasePeriodForDevice_eq [OF sorted_ex] nomatch_X)

lemma discover_period_ex:
  "serveDHCP (exHandler\<lparr>LeasePeriod := d\<rparr>) exPrefixes exEnv packetX Discover Map.empty
     = Inr (Some (ReplyPacket packetX Offer [10, 0, 0, 1] [10, 0, 0, 12] d
                    (AllOptions (options exHandler))), exHandler\<lparr>LeasePeriod := d\<rparr>)"
proof -
  define g where "g = exHandler\<lparr>LeasePeriod := d\<rparr>"
  have 1: "staticLeases g (ToLower macX) = None" by (simp add: g_def exHandler_def)
  have 2: "CIAddr packetX = [0, 0, 0, 0]" by (simp add: packetX_def)
  have 3: "leaseHW g macX = None" by (simp add: leaseHW_def g_def exHandler_def)
  have 4: "findLease g (nowFind exEnv) (randDraw exEnv) = 2"
    by (simp add: findLease_def freeAt_def rand_Intn_def g_def exHandler_def exEnv_def)
  have 5: "start g = [10, 0, 0, 10]" "serverIP g = [10, 0, 0, 1]" "LeasePeriod g = d"
    "options g = options exHandler"
    by (simp_all add: g_def exHandler_def)
  have "serveDHCP g exPrefixes exEnv packetX Discover Map.empty
     = Inr (Some (ReplyPacket packetX Offer [10, 0, 0, 1] [10, 0, 0, 12] d
                    (AllOptions (options exHandler))), g)"
    by (simp add: serveDHCP_def str_X period_XP Let_def SelectOrderOrAll_def 1 2 3 4 5 zero_req
          add_ex)
  then show ?thesis by (simp add: g_def)
qed

text \<open>Claim C8, as stated: the lease period is one hour if and only if the hardware
  address matches the table, and this duration is the one placed in the OFFER and the ACK.
  Both fail. With a configured default of one hour, client X, which does not match, gets
  one hour. With a configured default of zero (a configuration that sets no
  \<^verbatim>\<open>lease_duration\<close>), the OFFER to client X carries no lease time at all: \<^verbatim>\<open>ReplyPacket\<close>
  adds the option only for a positive duration.\<close>

theorem lease_period_policy_counterexample:
  "\<not> ouiMatch exPrefixes macX
   \<and> leasePeriodForDevice (exHandler\<lparr>LeasePeriod := Hour\<rparr>) exPrefixes macX = Hour
   \<and> serveDHCP (exHandler\<lparr>LeasePeriod := 0\<rparr>) exPrefixes exEnv packetX Discover Map.empty
       = Inr (Some (ReplyPacket packetX Offer [10, 0, 0, 1] [10, 0, 0, 12] 0
                      (AllOptions (options exHandler))), exHandler\<lparr>LeasePeriod := 0\<rparr>)
   \<and> leaseTime (ReplyPacket packetX Offer [10, 0, 0, 1] [10, 0, 0, 12] 0
                  (AllOptions (options exHandler))) = None"
  by (simp add: nomatch_X period_XP discover_period_ex) (simp add: ReplyPacket_def)

text \<open>Claim C8, amended. With the table sorted (as the binary search needs it), the lease
  period of a hardware address is one hour when the address parses (colons removed,
  hexadecimal) to six bytes whose first three are an entry of the table, and the configured
  default for every other address, unparseable and wrong-length ones included; so it is
  one hour exactly for the matching addresses whenever the default is not itself one hour.
  Every OFFER and every ACK that \<^verbatim>\<open>serveDHCP\<close> returns is built by \<^verbatim>\<open>ReplyPacket\<close> with this
  duration for the client's hardware address: its lease time option is the duration in
  whole seconds, as four big-endian bytes, when the duration is positive (3600 seconds for
  a matching client), and is absent otherwise.\<close>

theorem lease_period_policy:
  assumes "sortedPrefixes tbl"
  shows "leasePeriodForDevice h tbl hw = (if ouiMatch tbl hw then Hour else LeasePeriod h)
    \<and> (LeasePeriod h \<noteq> Hour \<longrightarrow> (leasePeriodForDevice h tbl hw = Hour \<longleftrightarrow> ouiMatch tbl hw))
    \<and> (serveDHCP h tbl env p msgType opts = Inr (Some r, h')
          \<and> (messageType r = Offer \<or> messageType r = ACK)
        \<longrightarrow> (\<exists>ip. r = ReplyPacket p (messageType r) (serverIP h) ip
                         (if ouiMatch tbl (HardwareAddr_String (CHAddr p)) then Hour
                          else LeasePeriod h)
                         (SelectOrderOrAll (options h) (opts OptionParameterRequestList)))
            \<and> leaseTime r =
                (if ouiMatch tbl (HardwareAddr_String (CHAddr p)) then Some [0, 0, 14, 16]
                 else if 0 < LeasePeriod h
                      then Some (PutUint32 (word_of_int (LeasePeriod h div 1000000000)))
                      else None))"
proof (intro conjI impI)
  show "leasePeriodForDevice h tbl hw = (if ouiMatch tbl hw then Hour else LeasePeriod h)"
    using assms by (rule leasePeriodForDevice_eq)
  then show "leasePeriodForDevice h tbl hw = Hour \<longleftrightarrow> ouiMatch tbl hw" if "LeasePeriod h \<noteq> Hour"
    using that by simp
next
  assume a: "serveDHCP h tbl env p msgType opts = Inr (Some r, h')
          \<and> (messageType r = Offer \<or> messageType r = ACK)"
  note e = leasePeriodForDevice_eq [OF assms, of h "HardwareAddr_String (CHAddr p)", symmetric]
  show built: "\<exists>ip. r = ReplyPacket p (messageType r) (serverIP h) ip
                         (if ouiMatch tbl (HardwareAddr_String (CHAddr p)) then Hour
                          else LeasePeriod h)
                         (SelectOrderOrAll (options h) (opts OptionParameterRequestList))"
    unfolding e
  proof (cases msgType)
    case Discover
    with a show "\<exists>ip. r = ReplyPacket p (messageType r) (serverIP h) ip
                         (leasePeriodForDevice h tbl (HardwareAddr_String (CHAddr p)))
                         (SelectOrderOrAll (options h) (opts OptionParameterRequestList))"
      by (auto simp add: serveDHCP_def Let_def ReplyPacket_def split: sum.splits if_splits)
  next
    case Request
    with a show "\<exists>ip. r = ReplyPacket p (messageType r) (serverIP h) ip
                         (leasePeriodForDevice h tbl (HardwareAddr_String (CHAddr p)))
                         (SelectOrderOrAll (options h) (opts OptionParameterRequestList))"
      by (auto simp add: serveDHCP_def Let_def ReplyPacket_def
            split: sum.splits if_splits option.splits prod.splits)
  qed (use a in \<open>auto simp add: serveDHCP_def\<close>)
  have pos: "0 < Hour" by (simp add: Hour_def Minute_def)
  have lt: "leaseTime (ReplyPacket q m sid ip d sel)
            = (if 0 < d then Some (PutUint32 (word_of_int (d div 1000000000))) else None)"
    for q m sid ip d sel
    by (simp add: ReplyPacket_def OptionsLeaseTime_def)
  from built obtain ip where
    "r = ReplyPacket p (messageType r) (serverIP h) ip
           (if ouiMatch tbl (HardwareAddr_String (CHAddr p)) then Hour else LeasePeriod h)
           (SelectOrderOrAll (options h) (opts OptionParameterRequestList))" ..
  from arg_cong [OF this, of leaseTime]
  show "leaseTime r =
                (if ouiMatch tbl (HardwareAddr_String (CHAddr p)) then Some [0, 0, 14, 16]
                 else if 0 < LeasePeriod h
                      then Some (PutUint32 (word_of_int (LeasePeriod h div 1000000000)))
                      else None)"
    using pos hour_bytes by (simp add: lt OptionsLeaseTime_def)
qed

theorem lease_period_policy_witness:
  "sortedPrefixes exPrefixes
   \<and> leasePeriodForDevice exHandler exPrefixes macN = Hour
   \<and> leasePeriodForDevice exHandler exPrefixes macX = LeasePeriod exHandler
   \<and> LeasePeriod exHandler \<noteq> Hour
   \<and> (\<exists>h'. serveDHCP exHandler exPrefixes exEnv packetN Request request11
         = Inr (Some (ReplyPacket packetN ACK [10, 0, 0, 1] [10, 0, 0, 11] Hour
                        (AllOptions (options exHandler))), h'))
   \<and> leaseTime (ReplyPacket packetN ACK [10, 0, 0, 1] [10, 0, 0, 11] Hour
                  (AllOptions (options exHandler))) = Some [0, 0, 14, 16]
   \<and> serveDHCP exHandler exPrefixes exEnv packetX Discover Map.empty
       = Inr (Some (ReplyPacket packetX Offer [10, 0, 0, 1] [10, 0, 0, 12] leasePeriod
                      (AllOptions (options exHandler))), exHandler)
   \<and> leaseTime (ReplyPacket packetX Offer [10, 0, 0, 1] [10, 0, 0, 12] leasePeriod
                  (AllOptions (options exHandler))) = Some [0, 0, 4, 176]"
proof -
  have ne: "LeasePeriod exHandler \<noteq> Hour" and pos: "0 < LeasePeriod exHandler"
    and lp: "LeasePeriod exHandler = leasePeriod"
    by (simp_all add: exHandler_def leasePeriod_def Hour_def Minute_def)
  have same: "exHandler\<lparr>LeasePeriod := leasePeriod\<rparr> = exHandler" by (simp add: exHandler_def)
  have dx: "serveDHCP exHandler exPrefixes exEnv packetX Discover Map.empty
       = Inr (Some (ReplyPacket packetX Offer [10, 0, 0, 1] [10, 0, 0, 12] leasePeriod
                      (AllOptions (options exHandler))), exHandler)"
    using discover_period_ex [of leasePeriod] by (simp add: same)
  have mt: "messageType (ReplyPacket packetX Offer [10, 0, 0, 1] [10, 0, 0, 12] leasePeriod
                  (AllOptions (options exHandler))) = Offer"
    "messageType (ReplyPacket packetN ACK [10, 0, 0, 1] [10, 0, 0, 11] Hour
                  (AllOptions (options exHandler))) = ACK"
    by (simp_all add: ReplyPacket_def)
  have db: "PutUint32 (word_of_int (leasePeriod div 1000000000)) = [0, 0, 4, 176]"
    using default_bytes by (simp add: OptionsLeaseTime_def)
  from lease_period_policy [OF sorted_ex, of exHandler macN exEnv packetN Request request11
         "ReplyPacket packetN ACK [10, 0, 0, 1] [10, 0, 0, 11] Hour (AllOptions (options exHandler))"]
       match_N request_N_ex mt
  have n: "leasePeriodForDevice exHandler exPrefixes macN = Hour"
    "leaseTime (ReplyPacket packetN ACK [10, 0, 0, 1] [10, 0, 0, 11] Hour
                  (AllOptions (options exHandler))) = Some [0, 0, 14, 16]"
    by (simp_all add: str_N)
  from lease_period_policy [OF sorted_ex, of exHandler macX exEnv packetX Discover Map.empty
         "ReplyPacket packetX Offer [10, 0, 0, 1] [10, 0, 0, 12] leasePeriod
            (AllOptions (options exHandler))" exHandler]
       nomatch_X dx mt pos lp db
  have x: "leasePeriodForDevice exHandler exPrefixes macX = LeasePeriod exHandler"
    "leaseTime (ReplyPacket packetX Offer [10, 0, 0, 1] [10, 0, 0, 12] leasePeriod
                  (AllOptions (options exHandler))) = Some [0, 0, 4, 176]"
    by (simp_all add: str_X)
  from n x sorted_ex ne request_N_ex dx show ?thesis by simp
qed

subsection \<open>Big-endian arithmetic\<close>

lemma length4E:
  assumes "length b = 4"
  obtains b0 b1 b2 b3 where "b = [b0, b1, b2, b3]"
proof -
  from assms obtain b0 r0 where "b = b0 # r0" "length r0 = 3" by (cases b) auto
  moreover then obtain b1 r1 where "r0 = b1 # r1" "length r1 = 2" by (cases r0) auto
  moreover then obtain b2 r2 where "r1 = b2 # r2" "length r2 = 1" by (cases r1) auto
  moreover then obtain b3 where "r2 = [b3]" by (cases r2) auto
  ultimately show ?thesis using that by simp
qed

lemma Put_Uint32:
  assumes "length b = 4" "Uint32 b = Inr v"
  shows "PutUint32 v = b"
proof -
  from assms(1) obtain b0 b1 b2 b3 where b: "b = [b0, b1, b2, b3]" by (rule length4E)
  have v: "v = ucast b3 OR push_bit 8 (ucast b2) OR push_bit 16 (ucast b1) OR push_bit 24 (ucast b0)"
    using assms(2) by (simp add: b Uint32_def)
  have "ucast (drop_bit 24 v) = b0" unfolding v
    by (rule bit_word_eqI) (auto simp add: bit_simps dest: bit_imp_le_length)
  moreover have "ucast (drop_bit 16 v) = b1" unfolding v
    by (rule bit_word_eqI) (auto simp add: bit_simps dest: bit_imp_le_length)
  moreover have "ucast (drop_bit 8 v) = b2" unfolding v
    by (rule bit_word_eqI) (auto simp add: bit_simps dest: bit_imp_le_length)
  moreover have "ucast v = b3" unfolding v
    by (rule bit_word_eqI) (auto simp add: bit_simps dest: bit_imp_le_length)
  ultimately show ?thesis by (simp add: PutUint32_def b)
qed

lemma To4_len4: "length ip = 4 \<Longrightarrow> To4 ip = ip"
  by (simp add: To4_def)

lemma copy4_len4: "length ip = 4 \<Longrightarrow> copy4 ip = ip"
  by (simp add: copy4_def)

lemma IPRange_diff:
  assumes "length req = 4" "IPRange s req = Inr m"
  shows "\<exists>a b. Uint32 (To4 s) = Inr a \<and> Uint32 req = Inr b \<and> m - 1 = uint b - uint a"
  using assms by (auto simp add: IPRange_def To4_len4 split: sum.splits)

lemma IPRange_IPAdd:
  assumes "length req = 4" "IPRange s req = Inr m"
  shows "IPAdd s (m - 1) = Inr req"
proof -
  from IPRange_diff [OF assms] obtain a b where
    ab: "Uint32 (To4 s) = Inr a" "Uint32 req = Inr b" "m - 1 = uint b - uint a" by blast
  have "a + word_of_int (uint b - uint a) = b" by simp
  with ab Put_Uint32 [OF assms(1) ab(2)] show ?thesis by (simp add: IPAdd_def)
qed

lemma canLease_accept:
  assumes "canLease h t req hw = Inr n" "n \<noteq> - 1"
  shows "length req = 4 \<and> 0 \<le> n \<and> IPRange (start h) req = Inr (n + 1)
         \<and> (n < leaseRange h \<or> (\<exists>l. leasesIP h n = Some l \<and> HardwareAddr l = hw))"
  using assms
  by (auto simp add: canLease_def Let_def split: if_splits sum.splits option.splits)

lemma canLease_IPAdd:
  assumes "canLease h t req hw = Inr n" "n \<noteq> - 1"
  shows "IPAdd (start h) n = Inr req"
  using canLease_accept [OF assms] IPRange_IPAdd [of req "start h" "n + 1"] by simp

subsection \<open>What one call of serveDHCP changes\<close>

lemma callLeasesLocked_fields:
  "leasesIP (callLeasesLocked h l) = leasesIP h" "leasesHW (callLeasesLocked h l) = leasesHW h"
  "start (callLeasesLocked h l) = start h" "leaseRange (callLeasesLocked h l) = leaseRange h"
  by (simp_all add: callLeasesLocked_def split: option.splits)

lemma serveDHCP_step:
  assumes "serveDHCP h tbl env p mt opts = Inr (r, h')"
  shows "start h' = start h \<and> leaseRange h' = leaseRange h \<and>
    ((h' = h \<and> (\<forall>rep. r = Some rep \<longrightarrow> messageType rep \<noteq> ACK))
     \<or> (\<exists>n l. mt = Decline \<and> leasesHW h (HardwareAddr_String (CHAddr p)) = Some n
            \<and> leasesIP h n = Some l \<and> HardwareAddr l = HardwareAddr_String (CHAddr p)
            \<and> h' = h\<lparr>leasesIP := (leasesIP h)(n \<mapsto> l\<lparr>Expiry := wallNow env\<rparr>)\<rparr>)
     \<or> (\<exists>n lease. mt = Request
            \<and> canLease h (nowRequested env)
                 (case opts OptionRequestedIPAddress of None \<Rightarrow> CIAddr p | Some v \<Rightarrow> v)
                 (HardwareAddr_String (CHAddr p)) = Inr n
            \<and> n \<noteq> - 1 \<and> Num lease = n
            \<and> Addr lease = copy4 (To4 (case opts OptionRequestedIPAddress of
                                          None \<Rightarrow> CIAddr p | Some v \<Rightarrow> v))
            \<and> HardwareAddr lease = HardwareAddr_String (CHAddr p)
            \<and> leasesIP h' = (case leaseHW h (HardwareAddr_String (CHAddr p)) of
                               None \<Rightarrow> leasesIP h
                             | Some l \<Rightarrow> (leasesIP h)(Num l := None))(n \<mapsto> lease)
            \<and> leasesHW h' = (leasesHW h)(HardwareAddr_String (CHAddr p) \<mapsto> n)))"
proof (cases mt)
  case Discover
  with assms have "h' = h \<and> (\<forall>rep. r = Some rep \<longrightarrow> messageType rep \<noteq> ACK)"
    by (auto simp add: serveDHCP_def Let_def ReplyPacket_def split: sum.splits if_splits)
  then show ?thesis by simp
next
  case Request
  define reqIP where "reqIP = (case opts OptionRequestedIPAddress of None \<Rightarrow> CIAddr p | Some v \<Rightarrow> v)"
  define hw where "hw = HardwareAddr_String (CHAddr p)"
  show ?thesis
  proof (cases "case opts OptionServerIdentifier of None \<Rightarrow> False
                | Some server \<Rightarrow> \<not> IP_Equal server (serverIP h)")
    case True
    with assms Request have "h' = h \<and> r = None" by (simp add: serveDHCP_def)
    then show ?thesis by simp
  next
    case False
    with assms Request obtain n where n: "canLease h (nowRequested env) reqIP hw = Inr n"
      by (auto simp add: serveDHCP_def Let_def reqIP_def hw_def split: sum.splits)
    show ?thesis
    proof (cases "n = - 1")
      case True
      with assms Request False n
      have "h' = h \<and> (\<forall>rep. r = Some rep \<longrightarrow> messageType rep \<noteq> ACK)"
        by (auto simp add: serveDHCP_def Let_def reqIP_def hw_def ReplyPacket_def)
      then show ?thesis by simp
    next
      case nn: False
      define lease0 where "lease0 =
          \<lparr> Num = n, Addr = copy4 (To4 reqIP), HardwareAddr = hw,
            Hostname = (case opts OptionHostName of None \<Rightarrow> [] | Some v \<Rightarrow> bytesToString v),
            HostnameOverride = [],
            Expiry = nowExpiry env + leasePeriodForDevice h tbl hw,
            LastACK = nowLastACK env \<rparr>"
      have goal: ?thesis
        if h': "h' = callLeasesLocked
                  (h\<lparr>leasesIP := (case leaseHW h hw of None \<Rightarrow> leasesIP h
                                   | Some l \<Rightarrow> (leasesIP h)(Num l := None))(n \<mapsto> lease),
                     leasesHW := (leasesHW h)(hw \<mapsto> n)\<rparr>) lease"
          and l: "Num lease = n" "Addr lease = copy4 (To4 reqIP)" "HardwareAddr lease = hw"
        for lease
      proof -
        have "\<exists>n lease. mt = Request \<and> canLease h (nowRequested env) reqIP hw = Inr n
            \<and> n \<noteq> - 1 \<and> Num lease = n \<and> Addr lease = copy4 (To4 reqIP)
            \<and> HardwareAddr lease = hw
            \<and> leasesIP h' = (case leaseHW h hw of None \<Rightarrow> leasesIP h
                             | Some l \<Rightarrow> (leasesIP h)(Num l := None))(n \<mapsto> lease)
            \<and> leasesHW h' = (leasesHW h)(hw \<mapsto> n)"
          using Request n nn l by (intro exI [of _ n] exI [of _ lease])
            (simp add: h' callLeasesLocked_fields)
        moreover have "start h' = start h \<and> leaseRange h' = leaseRange h"
          by (simp add: h' callLeasesLocked_fields)
        ultimately show ?thesis unfolding reqIP_def hw_def by blast
      qed
      show ?thesis
      proof (cases "leaseHW h hw")
        case None
        with assms Request False n nn have "h' = callLeasesLocked
                  (h\<lparr>leasesIP := (case leaseHW h hw of None \<Rightarrow> leasesIP h
                                   | Some l \<Rightarrow> (leasesIP h)(Num l := None))(n \<mapsto> lease0),
                     leasesHW := (leasesHW h)(hw \<mapsto> n)\<rparr>) lease0"
          by (simp add: serveDHCP_def Let_def reqIP_def [symmetric] hw_def [symmetric] lease0_def)
        then show ?thesis by (rule goal) (simp_all add: lease0_def)
      next
        case (Some l)
        define lease1 where "lease1 =
            (if Expiry l = 0 then lease0\<lparr>Expiry := 0, Hostname := Hostname l\<rparr> else lease0)"
        define lease2 where "lease2 =
            (if HostnameOverride l \<noteq> []
             then lease1\<lparr>Hostname := HostnameOverride l, HostnameOverride := HostnameOverride l\<rparr>
             else lease1)"
        from assms Request False n nn Some have "h' = callLeasesLocked
                  (h\<lparr>leasesIP := (case leaseHW h hw of None \<Rightarrow> leasesIP h
                                   | Some l \<Rightarrow> (leasesIP h)(Num l := None))(n \<mapsto> lease2),
                     leasesHW := (leasesHW h)(hw \<mapsto> n)\<rparr>) lease2"
          by (auto simp add: serveDHCP_def Let_def reqIP_def [symmetric] hw_def [symmetric]
                lease2_def lease1_def lease0_def)
        then show ?thesis by (rule goal) (simp_all add: lease2_def lease1_def lease0_def)
      qed
    qed
  qed
next
  case Decline
  with assms show ?thesis
    by (auto simp add: serveDHCP_def Let_def expireLease_def split: option.splits if_splits)
qed (use assms in \<open>auto simp add: serveDHCP_def\<close>)

lemma serveAll_invariant:
  assumes step: "\<And>h env p mt opts r h'. P h \<Longrightarrow> serveDHCP h tbl env p mt opts = Inr (r, h') \<Longrightarrow> P h'"
    and "P h0" and "serveAll h0 tbl inputs = Inr h"
  shows "P h"
  using assms(2,3)
proof (induction inputs arbitrary: h0)
  case Nil
  then show ?case by simp
next
  case (Cons i inputs)
  obtain env p mt opts where i: "i = (env, p, mt, opts)" by (cases i) auto
  from Cons.prems(2) obtain r h1 where s: "serveDHCP h0 tbl env p mt opts = Inr (r, h1)"
    and rest: "serveAll h1 tbl inputs = Inr h"
    by (auto simp add: i split: sum.splits)
  from step [OF Cons.prems(1) s] rest show ?case by (rule Cons.IH)
qed

subsection \<open>Stored leases lie in the pool\<close>

lemma pool_step:
  assumes k: "keyedByNum h" and q: "leasesInPool h"
    and s: "serveDHCP h tbl env p mt opts = Inr (r, h')"
  shows "keyedByNum h' \<and> leasesInPool h'"
proof -
  define hw where "hw = HardwareAddr_String (CHAddr p)"
  define reqIP where "reqIP = (case opts OptionRequestedIPAddress of None \<Rightarrow> CIAddr p | Some v \<Rightarrow> v)"
  from serveDHCP_step [OF s] have f: "start h' = start h" "leaseRange h' = leaseRange h" by simp_all
  from serveDHCP_step [OF s] consider
    (same) "h' = h"
  | (decline) n l where "leasesIP h n = Some l"
      "h' = h\<lparr>leasesIP := (leasesIP h)(n \<mapsto> l\<lparr>Expiry := wallNow env\<rparr>)\<rparr>"
  | (ack) n lease where "canLease h (nowRequested env) reqIP hw = Inr n" "n \<noteq> - 1"
      "Num lease = n" "Addr lease = copy4 (To4 reqIP)"
      "leasesIP h' = (case leaseHW h hw of None \<Rightarrow> leasesIP h
                      | Some l \<Rightarrow> (leasesIP h)(Num l := None))(n \<mapsto> lease)"
    unfolding hw_def reqIP_def by blast
  then show ?thesis
  proof cases
    case same
    with k q show ?thesis by simp
  next
    case decline
    with k q show ?thesis
      by (auto simp add: keyedByNum_def leasesInPool_def leaseInPool_def split: if_splits)
  next
    case ack
    from canLease_accept [OF ack(1,2)] have len: "length reqIP = 4" and n0: "0 \<le> n"
      and own: "n < leaseRange h \<or> (\<exists>l. leasesIP h n = Some l \<and> HardwareAddr l = hw)"
      by simp_all
    from own k q have nr: "n < leaseRange h"
      by (auto simp add: keyedByNum_def leasesInPool_def leaseInPool_def)
    have "leaseInPool h' lease"
      using canLease_IPAdd [OF ack(1,2)] len n0 nr ack(3,4) f
      by (simp add: leaseInPool_def To4_len4 copy4_len4)
    moreover have old: "leasesIP h k' = Some l'" if "k' \<noteq> n" "leasesIP h' k' = Some l'" for k' l'
      using that ack(5) by (auto split: option.splits if_splits)
    ultimately show ?thesis
      using k q ack(3,5) f
      unfolding keyedByNum_def leasesInPool_def leaseInPool_def
      by (metis fun_upd_same option.inject)
  qed
qed


lemma SetLeases_loop_fields:
  "start (SetLeases_loop h ls) = start h \<and> leaseRange (SetLeases_loop h ls) = leaseRange h"
  by (induction ls arbitrary: h) (simp_all add: Let_def)

lemma SetLeases_loop_pool:
  assumes "keyedByNum h" "leasesInPool h" "\<forall>l \<in> set ls. leaseInPool h l"
  shows "keyedByNum (SetLeases_loop h ls) \<and> leasesInPool (SetLeases_loop h ls)"
  using assms
proof (induction ls arbitrary: h)
  case Nil
  then show ?case by simp
next
  case (Cons l0 ls)
  define l where "l = (if LastACK l0 = 0 then l0\<lparr>LastACK := Expiry l0\<rparr> else l0)"
  define h1 where "h1 = h\<lparr>leasesHW := (leasesHW h)(HardwareAddr l \<mapsto> Num l),
                            leasesIP := (leasesIP h)(Num l \<mapsto> l)\<rparr>"
  have e: "SetLeases_loop h (l0 # ls) = SetLeases_loop h1 ls"
    by (simp add: Let_def h1_def l_def)
  have p: "leaseInPool h1 x = leaseInPool h x" for x
    by (simp add: leaseInPool_def h1_def)
  have "leaseInPool h l" using Cons.prems(3) by (simp add: l_def leaseInPool_def)
  then have "keyedByNum h1" "leasesInPool h1"
    using Cons.prems(1,2) by (auto simp add: keyedByNum_def leasesInPool_def p) (simp_all add: h1_def split: if_splits)
  moreover have "\<forall>x \<in> set ls. leaseInPool h1 x" using Cons.prems(3) by (simp add: p)
  ultimately show ?case unfolding e by (rule Cons.IH)
qed

lemma SetLeases_pool:
  assumes "\<forall>l \<in> set leases. leaseInPool h0 l"
  shows "keyedByNum (SetLeases h0 leases) \<and> leasesInPool (SetLeases h0 leases)
         \<and> start (SetLeases h0 leases) = start h0
         \<and> leaseRange (SetLeases h0 leases) = leaseRange h0"
proof -
  define h where "h = h0\<lparr>leasesHW := Map.empty, leasesIP := Map.empty\<rparr>"
  have "keyedByNum h" "leasesInPool h" by (simp_all add: keyedByNum_def leasesInPool_def h_def)
  moreover have "\<forall>l \<in> set leases. leaseInPool h l"
    using assms by (simp add: leaseInPool_def h_def)
  ultimately have "keyedByNum (SetLeases_loop h leases) \<and> leasesInPool (SetLeases_loop h leases)"
    by (rule SetLeases_loop_pool)
  then show ?thesis
    using SetLeases_loop_fields [of h leases] by (simp add: SetLeases_def h_def)
qed

lemma reachable_pool:
  assumes "\<forall>l \<in> set leases. leaseInPool h0 l"
    and "serveAll (SetLeases h0 leases) tbl inputs = Inr h"
  shows "keyedByNum h \<and> leasesInPool h \<and> start h = start h0 \<and> leaseRange h = leaseRange h0"
proof (rule serveAll_invariant [where P = "\<lambda>h. keyedByNum h \<and> leasesInPool h
          \<and> start h = start h0 \<and> leaseRange h = leaseRange h0", OF _ _ assms(2)])
  show "keyedByNum (SetLeases h0 leases) \<and> leasesInPool (SetLeases h0 leases)
         \<and> start (SetLeases h0 leases) = start h0
         \<and> leaseRange (SetLeases h0 leases) = leaseRange h0"
    using assms(1) by (rule SetLeases_pool)
next
  fix h env p mt opts r h'
  assume a: "keyedByNum h \<and> leasesInPool h \<and> start h = start h0 \<and> leaseRange h = leaseRange h0"
    and s: "serveDHCP h tbl env p mt opts = Inr (r, h')"
  from a pool_step [OF _ _ s] serveDHCP_step [OF s]
  show "keyedByNum h' \<and> leasesInPool h' \<and> start h' = start h0 \<and> leaseRange h' = leaseRange h0"
    by simp
qed

lemma exExpired_eq:
  "exExpired = exHandler\<lparr>leasesHW := [macX \<mapsto> 3], leasesIP := [3 \<mapsto> leaseX3]\<rparr>"
  by (simp add: exExpired_def SetLeases_def leaseX3_def exHandler_def)

lemma range_ex13: "IPRange [10, 0, 0, 10] [10, 0, 0, 13] = Inr 4"
  by (simp add: IPRange_def To4_def Uint32_def)

lemma add_ex13: "IPAdd [10, 0, 0, 10] 3 = Inr [10, 0, 0, 13]"
  by (simp add: IPAdd_def To4_def Uint32_def PutUint32_def drop_bit_eq_div)

lemma nonzero13: "\<not> IP_Equal [10, 0, 0, 13] IPv4zero"
  by (simp add: IP_Equal_def IPv4zero_def v4InV6Prefix_def)

lemma macs_differ: "macX \<noteq> macY"
  by (simp add: macX_def macY_def)

lemma period_Y: "leasePeriodForDevice h [] macY = LeasePeriod h"
  by (simp add: leasePeriodForDevice_def macY_def removeColons_def fromHexChar_def Search_def)

lemma canLease_Y13: "canLease exExpired 1000 [10, 0, 0, 13] macY = Inr 3"
  by (simp add: canLease_def nonzero13 exExpired_eq exHandler_def range_ex13 leaseX3_def
        macs_differ Expired_def)

lemma request_Y_ex:
  "serveDHCP exExpired [] exEnv packetY Request request13
     = Inr (Some (ReplyPacket packetY ACK [10, 0, 0, 1] [10, 0, 0, 13] leasePeriod
                    (AllOptions (options exHandler))), exTaken)"
proof -
  have 1: "request13 OptionRequestedIPAddress = Some [10, 0, 0, 13]"
    "request13 OptionServerIdentifier = None" "request13 OptionHostName = None"
    "request13 OptionParameterRequestList = None"
    by (simp_all add: request13_def OptionRequestedIPAddress_def OptionServerIdentifier_def
          OptionHostName_def OptionParameterRequestList_def)
  have 2: "leaseHW exExpired macY = None"
    using macs_differ by (simp add: leaseHW_def exExpired_eq exHandler_def)
  have 3: "serverIP exExpired = [10, 0, 0, 1]" "LeasePeriod exExpired = leasePeriod"
    "Leases exExpired = Some []" "options exExpired = options exHandler"
    by (simp_all add: exExpired_eq exHandler_def)
  have 4: "copy4 (To4 [10, 0, 0, 13]) = [10, 0, 0, 13]" by (simp add: copy4_def To4_def)
  have 5: "nowExpiry exEnv = 1000" "nowLastACK exEnv = 1000" "nowRequested exEnv = 1000"
    by (simp_all add: exEnv_def)
  have 6: "exExpired\<lparr>leasesIP := (leasesIP exExpired)(3 \<mapsto> leaseY3),
                       leasesHW := (leasesHW exExpired)(macY \<mapsto> 3),
                       Leases := Some [((leasesIP exExpired)(3 \<mapsto> leaseY3), leaseY3)]\<rparr> = exTaken"
    by (simp add: exExpired_eq exTaken_def exHandler_def)
  show ?thesis
    by (simp add: serveDHCP_def str_Y period_Y Let_def SelectOrderOrAll_def 1 2 3 4 5
          canLease_Y13 callLeasesLocked_def leaseY3_def [symmetric])
       (simp add: 6 [symmetric] leaseY3_def)
qed

text \<open>Claim C2. Start from a restore whose leases each satisfy the invariant (an offset in
  \<open>[0, leaseRange)\<close>, the address equal to the start address plus the offset in big-endian
  32-bit arithmetic); the empty list gives the empty database. After any sequence of
  \<^verbatim>\<open>serveDHCP\<close> calls that does not panic, every stored lease satisfies the invariant. In
  particular the offset \<^verbatim>\<open>canLease\<close> accepts for a requested address is the requested
  address minus the start address (\<^verbatim>\<open>IPRange\<close> counts both ends, and the code subtracts
  the one), and the lease an acknowledged REQUEST stores has the requested address and
  that offset.\<close>

theorem stored_leases_in_pool:
  assumes "\<forall>l \<in> set leases. leaseInPool h0 l"
    and "serveAll (SetLeases h0 leases) tbl inputs = Inr h"
  shows "(\<forall>k l. leasesIP h k = Some l \<longrightarrow>
            0 \<le> Num l \<and> Num l < leaseRange h0 \<and> IPAdd (start h0) (Num l) = Inr (Addr l))
    \<and> (canLease h t req hw = Inr n \<and> n \<noteq> - 1 \<longrightarrow>
          (\<exists>a b. Uint32 (To4 (start h0)) = Inr a \<and> Uint32 req = Inr b \<and> n = uint b - uint a)
          \<and> IPAdd (start h0) n = Inr req)
    \<and> (serveDHCP h tbl env p Request opts = Inr (Some rep, h') \<and> messageType rep = ACK \<longrightarrow>
          (\<exists>m lease. canLease h (nowRequested env)
                        (case opts OptionRequestedIPAddress of None \<Rightarrow> CIAddr p | Some v \<Rightarrow> v)
                        (HardwareAddr_String (CHAddr p)) = Inr m
             \<and> leasesIP h' m = Some lease \<and> Num lease = m
             \<and> Addr lease = (case opts OptionRequestedIPAddress of None \<Rightarrow> CIAddr p | Some v \<Rightarrow> v)
             \<and> IPAdd (start h0) (Num lease) = Inr (Addr lease)))"
proof (intro conjI impI allI)
  note inv = reachable_pool [OF assms]
  fix k l assume "leasesIP h k = Some l"
  with inv show "0 \<le> Num l" "Num l < leaseRange h0" "IPAdd (start h0) (Num l) = Inr (Addr l)"
    by (auto simp add: leasesInPool_def leaseInPool_def)
next
  note inv = reachable_pool [OF assms]
  assume c: "canLease h t req hw = Inr n \<and> n \<noteq> - 1"
  then have c1: "canLease h t req hw = Inr n" and c2: "n \<noteq> - 1" by simp_all
  from canLease_accept [OF c1 c2] IPRange_diff [of req "start h" "n + 1"] inv
  show "\<exists>a b. Uint32 (To4 (start h0)) = Inr a \<and> Uint32 req = Inr b \<and> n = uint b - uint a"
    by simp
  from canLease_IPAdd [OF c1 c2] inv show "IPAdd (start h0) n = Inr req" by simp
next
  note inv = reachable_pool [OF assms]
  define reqIP where "reqIP = (case opts OptionRequestedIPAddress of None \<Rightarrow> CIAddr p | Some v \<Rightarrow> v)"
  assume a: "serveDHCP h tbl env p Request opts = Inr (Some rep, h') \<and> messageType rep = ACK"
  then have s: "serveDHCP h tbl env p Request opts = Inr (Some rep, h')" and ack: "messageType rep = ACK"
    by simp_all
  from serveDHCP_step [OF s] ack obtain m lease where
    m: "canLease h (nowRequested env) reqIP (HardwareAddr_String (CHAddr p)) = Inr m" "m \<noteq> - 1"
      "Num lease = m" "Addr lease = copy4 (To4 reqIP)"
      "leasesIP h' = (case leaseHW h (HardwareAddr_String (CHAddr p)) of None \<Rightarrow> leasesIP h
                      | Some l \<Rightarrow> (leasesIP h)(Num l := None))(m \<mapsto> lease)"
    unfolding reqIP_def by auto
  from canLease_accept [OF m(1,2)] have len: "length reqIP = 4" by simp
  from canLease_IPAdd [OF m(1,2)] inv have "IPAdd (start h0) m = Inr reqIP" by simp
  with m len show "\<exists>m lease. canLease h (nowRequested env)
                        (case opts OptionRequestedIPAddress of None \<Rightarrow> CIAddr p | Some v \<Rightarrow> v)
                        (HardwareAddr_String (CHAddr p)) = Inr m
             \<and> leasesIP h' m = Some lease \<and> Num lease = m
             \<and> Addr lease = (case opts OptionRequestedIPAddress of None \<Rightarrow> CIAddr p | Some v \<Rightarrow> v)
             \<and> IPAdd (start h0) (Num lease) = Inr (Addr lease)"
    unfolding reqIP_def [symmetric]
    by (intro exI [of _ m] exI [of _ lease]) (simp add: To4_len4 copy4_len4)
qed


theorem stored_leases_in_pool_witness:
  "leaseInPool exHandler leaseX3
   \<and> serveAll (SetLeases exHandler [leaseX3]) [] [(exEnv, packetY, Request, request13)]
       = Inr exTaken
   \<and> leasesIP exTaken 3 = Some leaseY3
   \<and> 0 \<le> Num leaseY3 \<and> Num leaseY3 < leaseRange exHandler
   \<and> IPAdd (start exHandler) (Num leaseY3) = Inr (Addr leaseY3)
   \<and> canLease exExpired 1000 [10, 0, 0, 13] macY = Inr 3
   \<and> IPAdd (start exHandler) 3 = Inr [10, 0, 0, 13]"
proof -
  have a: "\<forall>l \<in> set [leaseX3]. leaseInPool exHandler l"
    by (simp add: leaseInPool_def leaseX3_def exHandler_def add_ex13)
  have b: "serveAll (SetLeases exHandler [leaseX3]) [] [(exEnv, packetY, Request, request13)]
       = Inr exTaken"
    by (simp add: exExpired_def [symmetric] request_Y_ex)
  have c: "leasesIP exTaken 3 = Some leaseY3" by (simp add: exTaken_def)
  have d: "IPAdd (start exHandler) 3 = Inr [10, 0, 0, 13]"
    by (simp add: exHandler_def add_ex13)
  from stored_leases_in_pool [OF a b, THEN conjunct1] c
  have "0 \<le> Num leaseY3 \<and> Num leaseY3 < leaseRange exHandler
        \<and> IPAdd (start exHandler) (Num leaseY3) = Inr (Addr leaseY3)"
    by blast
  with a b c d canLease_Y13 show ?thesis by simp
qed

subsection \<open>The two indices\<close>

lemma index_step:
  assumes i: "leaseIndexed h" and s: "serveDHCP h tbl env p mt opts = Inr (r, h')"
  shows "leaseIndexed h'"
proof -
  define hw where "hw = HardwareAddr_String (CHAddr p)"
  from serveDHCP_step [OF s] consider
    (same) "h' = h"
  | (decline) n l where "leasesIP h n = Some l"
      "h' = h\<lparr>leasesIP := (leasesIP h)(n \<mapsto> l\<lparr>Expiry := wallNow env\<rparr>)\<rparr>"
  | (ack) n lease where "Num lease = n" "HardwareAddr lease = hw"
      "leasesIP h' = (case leaseHW h hw of None \<Rightarrow> leasesIP h
                      | Some l \<Rightarrow> (leasesIP h)(Num l := None))(n \<mapsto> lease)"
      "leasesHW h' = (leasesHW h)(hw \<mapsto> n)"
    unfolding hw_def by blast
  then show ?thesis
  proof cases
    case same
    with i show ?thesis by simp
  next
    case decline
    with i show ?thesis
      by (auto simp add: leaseIndexed_def split: if_splits)
  next
    case ack
    show ?thesis unfolding leaseIndexed_def
    proof (intro allI impI)
      fix k l' assume a: "leasesIP h' k = Some l'"
      show "Num l' = k \<and> leasesHW h' (HardwareAddr l') = Some k"
      proof (cases "k = n")
        case True
        with a ack show ?thesis by simp
      next
        case False
        with a ack(3) have m1: "(case leaseHW h hw of None \<Rightarrow> leasesIP h
                      | Some l \<Rightarrow> (leasesIP h)(Num l := None)) k = Some l'" by simp
        then have old: "leasesIP h k = Some l'" by (auto split: option.splits if_splits)
        with i have ok: "Num l' = k" "leasesHW h (HardwareAddr l') = Some k"
          by (simp_all add: leaseIndexed_def)
        have "HardwareAddr l' \<noteq> hw"
        proof
          assume e: "HardwareAddr l' = hw"
          with ok old have "leaseHW h hw = Some l'" by (simp add: leaseHW_def)
          with m1 ok show False by simp
        qed
        with ok ack(4) show ?thesis by simp
      qed
    qed
  qed
qed

lemma hw_leaseY3: "HardwareAddr leaseY3 = macY"
  by (simp add: leaseY3_def)

text \<open>Claim C4, as stated: in every reachable state each entry \<open>hw \<mapsto> n\<close> of \<open>leasesHW\<close>
  points to a lease of \<open>hw\<close>. It fails after a takeover: client Y is acknowledged at
  offset 3, where the expired lease of client X was, and the entry of X still points to
  offset 3, which now holds the lease of Y.\<close>

theorem stale_index_entry_counterexample:
  "hwPointsToOwn exExpired
   \<and> serveAll exExpired [] [(exEnv, packetY, Request, request13)] = Inr exTaken
   \<and> leasesHW exTaken macX = Some 3 \<and> leasesIP exTaken 3 = Some leaseY3
   \<and> HardwareAddr leaseY3 \<noteq> macX
   \<and> \<not> hwPointsToOwn exTaken"
proof -
  have a: "hwPointsToOwn exExpired"
    by (simp add: hwPointsToOwn_def exExpired_eq leaseX3_def)
  have b: "leasesHW exTaken macX = Some 3" "leasesIP exTaken 3 = Some leaseY3"
    using macs_differ by (simp_all add: exTaken_def)
  have c: "HardwareAddr leaseY3 \<noteq> macX" using macs_differ by (simp add: hw_leaseY3)
  have "\<not> hwPointsToOwn exTaken"
  proof
    assume "hwPointsToOwn exTaken"
    with b(1) obtain l where "leasesIP exTaken 3 = Some l" "HardwareAddr l = macX"
      unfolding hwPointsToOwn_def by blast
    with b(2) c show False by simp
  qed
  with a b c show ?thesis by (simp add: request_Y_ex)
qed

text \<open>Claim C4, amended. From an empty lease database, or from one in which every stored
  lease is found under its client, every state that \<^verbatim>\<open>serveDHCP\<close> calls reach agrees in the
  other direction: a lease stored at offset \<open>n\<close> has \<open>Num = n\<close>, and \<open>leasesHW\<close> maps its
  hardware address to \<open>n\<close>. (An entry of \<open>leasesHW\<close> may be stale; \<^verbatim>\<open>leaseHW\<close> and
  \<^verbatim>\<open>expireLease\<close> compare the hardware address of the lease they find.)\<close>

theorem stored_leases_indexed:
  assumes "leasesIP h0 = Map.empty \<or> leaseIndexed h0"
    and "serveAll h0 tbl inputs = Inr h"
  shows "leaseIndexed h"
proof (rule serveAll_invariant [where P = leaseIndexed, OF _ _ assms(2)])
  from assms(1) show "leaseIndexed h0" by (auto simp add: leaseIndexed_def)
qed (rule index_step)

theorem stored_leases_indexed_witness:
  "leaseIndexed exExpired
   \<and> serveAll exExpired [] [(exEnv, packetY, Request, request13)] = Inr exTaken
   \<and> leaseIndexed exTaken
   \<and> leasesIP exTaken 3 = Some leaseY3 \<and> Num leaseY3 = 3
   \<and> leasesHW exTaken (HardwareAddr leaseY3) = Some 3"
proof -
  have a: "leaseIndexed exExpired"
    by (simp add: leaseIndexed_def exExpired_eq leaseX3_def)
  have b: "serveAll exExpired [] [(exEnv, packetY, Request, request13)] = Inr exTaken"
    by (simp add: request_Y_ex)
  have c: "leasesIP exTaken 3 = Some leaseY3" by (simp add: exTaken_def)
  from stored_leases_indexed [OF disjI2 [OF a] b] have d: "leaseIndexed exTaken" .
  with c have "Num leaseY3 = 3 \<and> leasesHW exTaken (HardwareAddr leaseY3) = Some 3"
    unfolding leaseIndexed_def by blast
  with a b c d show ?thesis by simp
qed

subsection \<open>The steps of a DISCOVER\<close>




















subsection \<open>leaseHW and stale entries\<close>










end
